theory Spec2Isabelle
  imports Main "HOL-Library.Word" "HOL-Library.AList" "HOL-Library.Char_ord" "HOL-Library.List_Lexorder"
    "HOL-Library.Multiset"
begin

text \<open>
  The JSON-RPC client of package rpc: request ids, the four message shapes and their
  parser, the transports, and the client with its pending-request table, its
  subscriptions and its read loop.
\<close>

section \<open>Bytes and UTF-8\<close>

text \<open>
  A Go \<open>string\<close> and a \<open>[]byte\<close> are byte sequences: \<open>string\<close> here, one \<open>char\<close> per byte.
  \<open>byte c\<close> is the numeric value of a byte.
\<close>

definition byte :: "char \<Rightarrow> nat" where
  "byte c = of_char c"

definition dquote :: char where "dquote = CHR 0x22"
definition bslash :: char where "bslash = CHR 0x5C"

definition in_range :: "nat \<Rightarrow> nat \<Rightarrow> char \<Rightarrow> bool" where
  "in_range lo hi c \<longleftrightarrow> lo \<le> byte c \<and> byte c \<le> hi"

definition is_digit :: "char \<Rightarrow> bool" where
  "is_digit c \<longleftrightarrow> in_range 0x30 0x39 c"

text \<open>
  \<open>utf8.DecodeRune\<close>, as far as the package depends on it: \<open>rune_size s\<close> is the width of
  the well-formed UTF-8 encoding at the head of \<open>s\<close>, and 0 where the decoder answers
  \<open>(RuneError, 1)\<close> (an empty, truncated, overlong, surrogate or out-of-range sequence).
\<close>

definition two_bytes :: "char \<Rightarrow> string \<Rightarrow> bool" where
  "two_bytes c cs \<longleftrightarrow>
     in_range 0xC2 0xDF c \<and> (case cs of c1 # _ \<Rightarrow> in_range 0x80 0xBF c1 | [] \<Rightarrow> False)"

definition three_bytes :: "char \<Rightarrow> string \<Rightarrow> bool" where
  "three_bytes c cs \<longleftrightarrow>
     in_range 0xE0 0xEF c \<and>
     (case cs of
        c1 # c2 # _ \<Rightarrow>
          in_range (if byte c = 0xE0 then 0xA0 else 0x80) (if byte c = 0xED then 0x9F else 0xBF) c1
          \<and> in_range 0x80 0xBF c2
      | _ \<Rightarrow> False)"

definition four_bytes :: "char \<Rightarrow> string \<Rightarrow> bool" where
  "four_bytes c cs \<longleftrightarrow>
     in_range 0xF0 0xF4 c \<and>
     (case cs of
        c1 # c2 # c3 # _ \<Rightarrow>
          in_range (if byte c = 0xF0 then 0x90 else 0x80) (if byte c = 0xF4 then 0x8F else 0xBF) c1
          \<and> in_range 0x80 0xBF c2 \<and> in_range 0x80 0xBF c3
      | _ \<Rightarrow> False)"

definition rune_size :: "string \<Rightarrow> nat" where
  "rune_size s =
     (case s of
        [] \<Rightarrow> 0
      | c # cs \<Rightarrow>
          if byte c < 0x80 then 1
          else if two_bytes c cs then 2
          else if three_bytes c cs then 3
          else if four_bytes c cs then 4
          else 0)"

section \<open>JSON text\<close>

text \<open>
  The functions of \<open>encoding/json\<close> that the package calls are part of the Go standard
  library, not of this repository; they are written out here so that the repository's
  functions can be run on concrete lines.
\<close>

subsection \<open>String literals\<close>

definition hexchar :: "nat \<Rightarrow> char" where
  "hexchar d = ''0123456789abcdef'' ! d"

definition hexval :: "char \<Rightarrow> nat option" where
  "hexval c =
     (if in_range 0x30 0x39 c then Some (byte c - 0x30)
      else if in_range 0x61 0x66 c then Some (byte c - 0x61 + 10)
      else if in_range 0x41 0x46 c then Some (byte c - 0x41 + 10)
      else None)"

definition replacement :: string where
  "replacement = [CHR 0xEF, CHR 0xBF, CHR 0xBD]"

text \<open>\<open>utf8.EncodeRune\<close>: surrogates and values past U+10FFFF become U+FFFD.\<close>

definition EncodeRune :: "nat \<Rightarrow> string" where
  "EncodeRune r =
     (if r < 0x80 then [char_of r]
      else if r < 0x800 then [char_of (0xC0 + r div 64), char_of (0x80 + r mod 64)]
      else if (0xD800 \<le> r \<and> r < 0xE000) \<or> 0x10FFFF < r then replacement
      else if r < 0x10000 then
        [char_of (0xE0 + r div 4096), char_of (0x80 + (r div 64) mod 64), char_of (0x80 + r mod 64)]
      else
        [char_of (0xF0 + r div 262144), char_of (0x80 + (r div 4096) mod 64),
         char_of (0x80 + (r div 64) mod 64), char_of (0x80 + r mod 64)])"

text \<open>
  The encoder's \<open>appendString\<close> with HTML escaping on (the default of \<open>json.Marshal\<close>):
  quote and backslash are escaped, control characters and the characters less-than,
  greater-than and ampersand are written as four-digit hexadecimal escapes, U+2028 and
  U+2029 are escaped, and a byte that does not start a well-formed UTF-8 sequence is
  replaced by the escape of U+FFFD.
\<close>

definition escape_ascii :: "char \<Rightarrow> string" where
  "escape_ascii c =
     (if c = bslash \<or> c = dquote then [bslash, c]
      else if byte c = 0x08 then [bslash, CHR ''b'']
      else if byte c = 0x0C then [bslash, CHR ''f'']
      else if byte c = 0x0A then [bslash, CHR ''n'']
      else if byte c = 0x0D then [bslash, CHR ''r'']
      else if byte c = 0x09 then [bslash, CHR ''t'']
      else if byte c < 0x20 \<or> c = CHR ''<'' \<or> c = CHR ''>'' \<or> c = CHR ''&'' then
        [bslash, CHR ''u'', CHR ''0'', CHR ''0'', hexchar (byte c div 16), hexchar (byte c mod 16)]
      else [c])"

function appendString :: "string \<Rightarrow> string" where
  "appendString [] = []"
| "appendString (c # cs) =
     (if byte c < 0x80 then escape_ascii c @ appendString cs
      else if rune_size (c # cs) = 0 then
        [bslash, CHR ''u'', CHR ''f'', CHR ''f'', CHR ''f'', CHR ''d''] @ appendString cs
      else if take 3 (c # cs) = [CHR 0xE2, CHR 0x80, CHR 0xA8] then
        [bslash, CHR ''u'', CHR ''2'', CHR ''0'', CHR ''2'', CHR ''8''] @ appendString (drop 2 cs)
      else if take 3 (c # cs) = [CHR 0xE2, CHR 0x80, CHR 0xA9] then
        [bslash, CHR ''u'', CHR ''2'', CHR ''0'', CHR ''2'', CHR ''9''] @ appendString (drop 2 cs)
      else take (rune_size (c # cs)) (c # cs) @ appendString (drop (rune_size (c # cs) - 1) cs))"
  by pat_completeness auto
termination
  by (relation "measure length") auto

definition quote :: "string \<Rightarrow> string" where
  "quote s = dquote # appendString s @ [dquote]"

text \<open>
  Reading a string literal, from the byte after the opening quote to the closing quote:
  the scanner's rules (the one-letter escapes and the four-digit hexadecimal escape, no
  raw control character) and \<open>unquote\<close>'s decoding (surrogate pairs combined, a lone surrogate
  and an ill-formed byte replaced by U+FFFD). The result is the decoded string and the
  text after the closing quote.
\<close>

definition hex4 :: "string \<Rightarrow> nat option" where
  "hex4 cs =
     (case cs of
        a # b # c # d # _ \<Rightarrow>
          (case (hexval a, hexval b, hexval c, hexval d) of
             (Some x, Some y, Some z, Some w) \<Rightarrow> Some (((x * 16 + y) * 16 + z) * 16 + w)
           | _ \<Rightarrow> None)
      | _ \<Rightarrow> None)"

definition getu4 :: "string \<Rightarrow> nat option" where
  "getu4 cs = (case cs of a # b # rest \<Rightarrow> if a = bslash \<and> b = CHR ''u'' then hex4 rest else None | _ \<Rightarrow> None)"

definition simple_escape :: "char \<Rightarrow> char option" where
  "simple_escape e =
     (if e = dquote \<or> e = bslash \<or> e = CHR ''/'' then Some e
      else if e = CHR ''b'' then Some (CHR 0x08)
      else if e = CHR ''f'' then Some (CHR 0x0C)
      else if e = CHR ''n'' then Some (CHR 0x0A)
      else if e = CHR ''r'' then Some (CHR 0x0D)
      else if e = CHR ''t'' then Some (CHR 0x09)
      else None)"

function unquote_from :: "string \<Rightarrow> string \<Rightarrow> (string \<times> string) option" where
  "unquote_from [] acc = None"
| "unquote_from (c # cs) acc =
     (if c = dquote then Some (acc, cs)
      else if c = bslash then
        (case cs of
           [] \<Rightarrow> None
         | e # es \<Rightarrow>
             if e = CHR ''u'' then
               (case hex4 es of
                  None \<Rightarrow> None
                | Some r \<Rightarrow>
                    if 0xD800 \<le> r \<and> r < 0xDC00 then
                      (case getu4 (drop 4 es) of
                         Some r1 \<Rightarrow>
                           if 0xDC00 \<le> r1 \<and> r1 < 0xE000
                           then unquote_from (drop 10 es)
                                  (acc @ EncodeRune (0x10000 + (r - 0xD800) * 0x400 + (r1 - 0xDC00)))
                           else unquote_from (drop 4 es) (acc @ replacement)
                       | None \<Rightarrow> unquote_from (drop 4 es) (acc @ replacement))
                    else unquote_from (drop 4 es) (acc @ EncodeRune r))
             else
               (case simple_escape e of
                  None \<Rightarrow> None
                | Some x \<Rightarrow> unquote_from es (acc @ [x])))
      else if byte c < 0x20 then None
      else if byte c < 0x80 then unquote_from cs (acc @ [c])
      else if rune_size (c # cs) = 0 then unquote_from cs (acc @ replacement)
      else unquote_from (drop (rune_size (c # cs) - 1) cs) (acc @ take (rune_size (c # cs)) (c # cs)))"
  by pat_completeness auto
termination
  by (relation "measure (\<lambda>(cs, acc). length cs)") auto

text \<open>A literal consumes at least its closing quote.\<close>

lemma unquote_from_length:
  "unquote_from cs acc = Some (s, rest) \<Longrightarrow> length rest < length cs"
proof (induction cs acc arbitrary: s rest rule: unquote_from.induct)
  case (1 acc)
  then show ?case by simp
next
  case (2 c cs acc)
  show ?case
    using "2.prems" "2.IH"
    by (fastforce split: if_splits list.splits option.splits)
qed

subsection \<open>Number literals\<close>

text \<open>
  The scanner's number grammar: an optional minus, \<open>0\<close> or a digit \<open>1-9\<close> followed by
  digits, an optional fraction, an optional exponent. \<open>scan_number\<close> returns the literal
  and the text after it.
\<close>

definition scan_frac :: "string \<Rightarrow> (string \<times> string) option" where
  "scan_frac r =
     (case r of
        c # r' \<Rightarrow>
          if c = CHR ''.'' then
            (if takeWhile is_digit r' = [] then None
             else Some (c # takeWhile is_digit r', dropWhile is_digit r'))
          else Some ([], r)
      | [] \<Rightarrow> Some ([], r))"

definition scan_sign :: "string \<Rightarrow> string \<times> string" where
  "scan_sign r =
     (case r of c # r' \<Rightarrow> if c = CHR ''+'' \<or> c = CHR ''-'' then ([c], r') else ([], r)
      | [] \<Rightarrow> ([], r))"

definition scan_exp :: "string \<Rightarrow> (string \<times> string) option" where
  "scan_exp r =
     (case r of
        c # r' \<Rightarrow>
          if c = CHR ''e'' \<or> c = CHR ''E'' then
            (case scan_sign r' of
               (sg, r'') \<Rightarrow>
                 if takeWhile is_digit r'' = [] then None
                 else Some (c # sg @ takeWhile is_digit r'', dropWhile is_digit r''))
          else Some ([], r)
      | [] \<Rightarrow> Some ([], r))"

definition scan_int :: "string \<Rightarrow> (string \<times> string) option" where
  "scan_int r =
     (case r of
        d # r' \<Rightarrow>
          if d = CHR ''0'' then Some ([d], r')
          else if is_digit d then Some (d # takeWhile is_digit r', dropWhile is_digit r')
          else None
      | [] \<Rightarrow> None)"

definition scan_number :: "string \<Rightarrow> (string \<times> string) option" where
  "scan_number cs =
     (case (case cs of c # r \<Rightarrow> if c = CHR ''-'' then ([c], r) else ([], cs) | [] \<Rightarrow> ([], cs)) of
        (sg, r0) \<Rightarrow>
          (case scan_int r0 of
             None \<Rightarrow> None
           | Some (ip, r1) \<Rightarrow>
               (case scan_frac r1 of
                  None \<Rightarrow> None
                | Some (fp, r2) \<Rightarrow>
                    (case scan_exp r2 of
                       None \<Rightarrow> None
                     | Some (ep, r3) \<Rightarrow> Some (sg @ ip @ fp @ ep, r3)))))"

lemma scan_frac_length: "scan_frac r = Some (l, r') \<Longrightarrow> length r' \<le> length r"
  by (auto simp: scan_frac_def split: list.splits if_splits
      intro: le_trans [OF length_dropWhile_le])

lemma scan_exp_length: "scan_exp r = Some (l, r') \<Longrightarrow> length r' \<le> length r"
  by (auto simp: scan_exp_def scan_sign_def split: list.splits if_splits prod.splits
      intro: le_trans [OF length_dropWhile_le])

lemma scan_int_length: "scan_int r = Some (l, r') \<Longrightarrow> length r' < length r"
  by (auto simp: scan_int_def split: list.splits if_splits
      intro: le_imp_less_Suc [OF length_dropWhile_le])

lemma scan_number_length:
  assumes "scan_number cs = Some (l, rest)"
  shows "length rest < length cs"
proof -
  obtain sg r0 where r0: "(case cs of c # r \<Rightarrow> if c = CHR ''-'' then ([c], r) else ([], cs) | [] \<Rightarrow> ([], cs)) = (sg, r0)"
    by (cases "(case cs of c # r \<Rightarrow> if c = CHR ''-'' then ([c], r) else ([], cs) | [] \<Rightarrow> ([], cs))") auto
  then have l0: "length r0 \<le> length cs"
    by (auto split: list.splits if_splits)
  from assms r0 obtain ip r1 fp r2 ep where
    "scan_int r0 = Some (ip, r1)" "scan_frac r1 = Some (fp, r2)" "scan_exp r2 = Some (ep, rest)"
    by (auto simp: scan_number_def split: option.splits)
  then show ?thesis
    using l0 scan_int_length scan_frac_length scan_exp_length
    by (metis le_trans less_le_trans not_less)
qed

subsection \<open>Tokens and values\<close>

datatype token =
    TLBrace | TRBrace | TLBrack | TRBrack | TColon | TComma
  | TString string | TNumber string | TTrue | TFalse | TNull

definition is_json_space :: "char \<Rightarrow> bool" where
  "is_json_space c \<longleftrightarrow> c = CHR '' '' \<or> c = CHR 0x09 \<or> c = CHR 0x0D \<or> c = CHR 0x0A"

definition punct :: "char \<Rightarrow> token option" where
  "punct c =
     (if c = CHR ''{'' then Some TLBrace else if c = CHR ''}'' then Some TRBrace
      else if c = CHR ''['' then Some TLBrack else if c = CHR '']'' then Some TRBrack
      else if c = CHR '':'' then Some TColon else if c = CHR '','' then Some TComma
      else None)"

definition keyword :: "string \<Rightarrow> (token \<times> nat) option" where
  "keyword cs =
     (if take 4 cs = ''true'' then Some (TTrue, 4)
      else if take 5 cs = ''false'' then Some (TFalse, 5)
      else if take 4 cs = ''null'' then Some (TNull, 4)
      else None)"

function tokenize :: "string \<Rightarrow> token list option" where
  "tokenize [] = Some []"
| "tokenize (c # cs) =
     (if is_json_space c then tokenize cs
      else if c = dquote then
        (case unquote_from cs [] of
           None \<Rightarrow> None
         | Some (s, rest) \<Rightarrow> map_option ((#) (TString s)) (tokenize rest))
      else if c = CHR ''-'' \<or> is_digit c then
        (case scan_number (c # cs) of
           None \<Rightarrow> None
         | Some (lit, rest) \<Rightarrow> map_option ((#) (TNumber lit)) (tokenize rest))
      else
        (case punct c of
           Some t \<Rightarrow> map_option ((#) t) (tokenize cs)
         | None \<Rightarrow>
             (case keyword (c # cs) of
                Some (t, n) \<Rightarrow> map_option ((#) t) (tokenize (drop (n - 1) cs))
              | None \<Rightarrow> None)))"
  by pat_completeness auto
termination
proof (relation "measure length", goal_cases)
  case 1 show ?case by simp
next
  case 2 then show ?case by simp
next
  case (3 c cs x2 s rest)
  then show ?case using unquote_from_length [of cs "[]" s rest] by simp
next
  case (4 c cs x2 lit rest)
  then show ?case using scan_number_length [of "c # cs" lit rest] by simp
next
  case 5 then show ?case by simp
next
  case 6 then show ?case by simp
qed

text \<open>
  A JSON value. Numbers keep their literal (as \<open>json.Number\<close> does); object members keep
  their order and their duplicates.
\<close>

datatype json =
    JNull
  | JBool bool
  | JNum string
  | JStr string
  | JArr "json list"
  | JObj "(string \<times> json) list"

text \<open>
  The parser is the scanner's push-down automaton: a stack of open arrays and objects
  and what may come next. Nesting deeper than 10000 is refused, as the scanner does.
\<close>

datatype frame = FArr "json list" | FObj "(string \<times> json) list" string

datatype expect =
    XValue | XValueOrClose | XKeyOrClose | XKey | XColon | XCommaOrClose | XEnd json

definition maxNestingDepth :: nat where
  "maxNestingDepth = 10000"

fun finish_value :: "json \<Rightarrow> frame list \<Rightarrow> expect \<times> frame list" where
  "finish_value v [] = (XEnd v, [])"
| "finish_value v (FArr vs # st) = (XCommaOrClose, FArr (v # vs) # st)"
| "finish_value v (FObj ms k # st) = (XCommaOrClose, FObj ((k, v) # ms) k # st)"

definition begin_value :: "token \<Rightarrow> frame list \<Rightarrow> (expect \<times> frame list) option" where
  "begin_value t st =
     (case t of
        TString s \<Rightarrow> Some (finish_value (JStr s) st)
      | TNumber l \<Rightarrow> Some (finish_value (JNum l) st)
      | TTrue \<Rightarrow> Some (finish_value (JBool True) st)
      | TFalse \<Rightarrow> Some (finish_value (JBool False) st)
      | TNull \<Rightarrow> Some (finish_value JNull st)
      | TLBrack \<Rightarrow> if length st < maxNestingDepth then Some (XValueOrClose, FArr [] # st) else None
      | TLBrace \<Rightarrow> if length st < maxNestingDepth then Some (XKeyOrClose, FObj [] [] # st) else None
      | _ \<Rightarrow> None)"

definition close_array :: "frame list \<Rightarrow> (expect \<times> frame list) option" where
  "close_array st = (case st of FArr vs # st' \<Rightarrow> Some (finish_value (JArr (rev vs)) st') | _ \<Rightarrow> None)"

definition close_object :: "frame list \<Rightarrow> (expect \<times> frame list) option" where
  "close_object st = (case st of FObj ms k # st' \<Rightarrow> Some (finish_value (JObj (rev ms)) st') | _ \<Rightarrow> None)"

definition take_key :: "token \<Rightarrow> frame list \<Rightarrow> (expect \<times> frame list) option" where
  "take_key t st =
     (case (t, st) of (TString k, FObj ms _ # st') \<Rightarrow> Some (XColon, FObj ms k # st') | _ \<Rightarrow> None)"

definition parse_step :: "expect \<Rightarrow> frame list \<Rightarrow> token \<Rightarrow> (expect \<times> frame list) option" where
  "parse_step x st t =
     (case x of
        XValue \<Rightarrow> begin_value t st
      | XValueOrClose \<Rightarrow> if t = TRBrack then close_array st else begin_value t st
      | XKeyOrClose \<Rightarrow> if t = TRBrace then close_object st else take_key t st
      | XKey \<Rightarrow> take_key t st
      | XColon \<Rightarrow> if t = TColon then Some (XValue, st) else None
      | XCommaOrClose \<Rightarrow>
          (case st of
             FArr vs # _ \<Rightarrow>
               if t = TComma then Some (XValue, st)
               else if t = TRBrack then close_array st else None
           | FObj ms k # _ \<Rightarrow>
               if t = TComma then Some (XKey, st)
               else if t = TRBrace then close_object st else None
           | [] \<Rightarrow> None)
      | XEnd v \<Rightarrow> None)"

fun parse_tokens :: "expect \<Rightarrow> frame list \<Rightarrow> token list \<Rightarrow> json option" where
  "parse_tokens x st [] = (case x of XEnd v \<Rightarrow> Some v | _ \<Rightarrow> None)"
| "parse_tokens x st (t # ts) =
     (case parse_step x st t of
        None \<Rightarrow> None
      | Some (x', st') \<Rightarrow> parse_tokens x' st' ts)"

text \<open>A whole text as one value: what \<open>checkValid\<close> accepts, as a value.\<close>

definition json_parse :: "string \<Rightarrow> json option" where
  "json_parse s = (case tokenize s of None \<Rightarrow> None | Some ts \<Rightarrow> parse_tokens XValue [] ts)"

subsection \<open>Rendering\<close>

text \<open>The compact text of a value, strings quoted as the encoder quotes them.\<close>

fun intersperse :: "string \<Rightarrow> string list \<Rightarrow> string" where
  "intersperse sep [] = []"
| "intersperse sep [x] = x"
| "intersperse sep (x # y # ys) = x @ sep @ intersperse sep (y # ys)"

fun render :: "json \<Rightarrow> string" where
  "render JNull = ''null''"
| "render (JBool b) = (if b then ''true'' else ''false'')"
| "render (JNum l) = l"
| "render (JStr s) = quote s"
| "render (JArr vs) = ''['' @ intersperse '','' (map render vs) @ '']''"
| "render (JObj ms) =
     ''{'' @ intersperse '','' (map (\<lambda>m. quote (fst m) @ '':'' @ render (snd m)) ms) @ ''}''"

section \<open>The JSON-RPC wire model\<close>

text \<open>
  \<open>json.RawMessage\<close> holds the bytes of one JSON value, or nothing. It is modelled by the
  value those bytes denote (\<open>None\<close> for a nil or empty message): the spelling of the bytes
  (inner white space, the choice among equivalent escapes) is not kept.
\<close>

type_synonym int64 = "64 word"

type_synonym RawMessage = "json option"

text \<open>\<open>RequestID\<close>: two optional fields, as the Go struct has two pointers.\<close>

record RequestID =
  str :: "string option"
  num :: "int64 option"

record JSONRPCErrorError =
  Code :: int64
  Message :: string
  Data :: RawMessage

record ResponseError =
  ID :: RequestID
  Detail :: JSONRPCErrorError

text \<open>
  Every Go \<open>error\<close> value that the package produces or passes on. \<open>EOF\<close> is \<open>io.EOF\<close>,
  \<open>ErrIO\<close> any other failure of a stream, \<open>ErrSyntax\<close> and \<open>ErrUnmarshalType\<close> the decoder's
  \<open>SyntaxError\<close> and \<open>UnmarshalTypeError\<close>, \<open>ErrMarshal\<close> the encoder's failure on a value
  it cannot represent, \<open>ErrCanceled\<close> and \<open>ErrDeadlineExceeded\<close> the errors of a context;
  the others carry the package's own messages.
\<close>

datatype error =
    EOF
  | ErrIO string
  | ErrSyntax
  | ErrUnmarshalType string string
  | ErrMarshal string
  | ErrInvalidRequestID string
  | ErrUnrecognized
  | ErrReplayClosed
  | ErrNoEntries
  | ErrMismatch string string
  | ErrClientClosed
  | ErrConnectionClosed
  | ErrCanceled
  | ErrDeadlineExceeded
  | ErrResponse ResponseError

subsection \<open>Integers as text\<close>

text \<open>
  \<open>itoa\<close> is the decimal text of an integer (\<open>%d\<close>, and \<open>json.Marshal\<close> of an \<open>int64\<close>);
  \<open>ParseInt64\<close> is \<open>strconv.ParseInt(s, 10, 64)\<close>.
\<close>

function digits :: "nat \<Rightarrow> string" where
  "digits n = (if n < 10 then [char_of (0x30 + n)] else digits (n div 10) @ [char_of (0x30 + n mod 10)])"
  by pat_completeness auto
termination
  by (relation "measure id") auto

declare digits.simps [simp del]

definition itoa :: "int \<Rightarrow> string" where
  "itoa i = (if i < 0 then CHR ''-'' # digits (nat (- i)) else digits (nat i))"

definition parse_nat :: "string \<Rightarrow> nat" where
  "parse_nat ds = foldl (\<lambda>a c. 10 * a + (byte c - 0x30)) 0 ds"

definition ParseInt64 :: "string \<Rightarrow> int64 option" where
  "ParseInt64 l =
     (case (case l of
              c # r \<Rightarrow> if c = CHR ''-'' then (True, r) else if c = CHR ''+'' then (False, r) else (False, l)
            | [] \<Rightarrow> (False, l)) of
        (neg, ds) \<Rightarrow>
          if ds = [] \<or> \<not> list_all is_digit ds then None
          else
            (let v = (if neg then - int (parse_nat ds) else int (parse_nat ds)) in
             if - (2 ^ 63) \<le> v \<and> v < 2 ^ 63 then Some (word_of_int v) else None))"

subsection \<open>Request ids\<close>

definition NewStringRequestID :: "string \<Rightarrow> RequestID" where
  "NewStringRequestID v = \<lparr>str = Some v, num = None\<rparr>"

definition NewIntRequestID :: "int64 \<Rightarrow> RequestID" where
  "NewIntRequestID v = \<lparr>str = None, num = Some v\<rparr>"

definition zeroRequestID :: RequestID where
  "zeroRequestID = \<lparr>str = None, num = None\<rparr>"

definition IsZero :: "RequestID \<Rightarrow> bool" where
  "IsZero i \<longleftrightarrow> str i = None \<and> num i = None"

definition Key :: "RequestID \<Rightarrow> string" where
  "Key i =
     (case str i of
        Some s \<Rightarrow> ''s:'' @ s
      | None \<Rightarrow> (case num i of Some n \<Rightarrow> ''i:'' @ itoa (sint n) | None \<Rightarrow> []))"

definition MarshalJSON :: "RequestID \<Rightarrow> string" where
  "MarshalJSON i =
     (case str i of
        Some s \<Rightarrow> quote s
      | None \<Rightarrow> (case num i of Some n \<Rightarrow> itoa (sint n) | None \<Rightarrow> ''null''))"

text \<open>
  \<open>json.Unmarshal\<close> of one value into a \<open>string\<close> and into an \<open>int64\<close>: the new content
  of the target and the error, if any. \<open>null\<close> leaves the target as it is.
\<close>

fun kind_of :: "json \<Rightarrow> string" where
  "kind_of JNull = ''null''"
| "kind_of (JBool _) = ''bool''"
| "kind_of (JNum _) = ''number''"
| "kind_of (JStr _) = ''string''"
| "kind_of (JArr _) = ''array''"
| "kind_of (JObj _) = ''object''"

definition store_string :: "json \<Rightarrow> string \<Rightarrow> string \<times> error option" where
  "store_string v cur =
     (case v of
        JStr s \<Rightarrow> (s, None)
      | JNull \<Rightarrow> (cur, None)
      | _ \<Rightarrow> (cur, Some (ErrUnmarshalType (kind_of v) ''string'')))"

definition store_int64 :: "json \<Rightarrow> int64 \<Rightarrow> int64 \<times> error option" where
  "store_int64 v cur =
     (case v of
        JNum l \<Rightarrow>
          (case ParseInt64 l of
             Some n \<Rightarrow> (n, None)
           | None \<Rightarrow> (cur, Some (ErrUnmarshalType (''number '' @ l) ''int64'')))
      | JNull \<Rightarrow> (cur, None)
      | _ \<Rightarrow> (cur, Some (ErrUnmarshalType (kind_of v) ''int64'')))"

text \<open>
  \<open>RequestID.UnmarshalJSON\<close>: empty data and the text \<open>null\<close> give the zero id; otherwise
  the data is decoded as a string, and if that fails as an \<open>int64\<close>.
\<close>

definition RequestID_of_value :: "json \<Rightarrow> RequestID option" where
  "RequestID_of_value v =
     (case store_string v [] of
        (s, None) \<Rightarrow> Some \<lparr>str = Some s, num = None\<rparr>
      | (_, Some _) \<Rightarrow>
          (case store_int64 v 0 of
             (n, None) \<Rightarrow> Some \<lparr>str = None, num = Some n\<rparr>
           | (_, Some _) \<Rightarrow> None))"

definition UnmarshalJSON :: "string \<Rightarrow> error + RequestID" where
  "UnmarshalJSON data =
     (if data = [] \<or> data = ''null'' then Inr zeroRequestID
      else
        (case json_parse data of
           None \<Rightarrow> Inl (ErrInvalidRequestID data)
         | Some v \<Rightarrow>
             (case RequestID_of_value v of
                Some i \<Rightarrow> Inr i
              | None \<Rightarrow> Inl (ErrInvalidRequestID data))))"

subsection \<open>Messages\<close>

record JSONRPCRequest =
  req_ID :: RequestID
  req_Method :: string
  req_Params :: RawMessage

record JSONRPCNotification =
  note_Method :: string
  note_Params :: RawMessage

record JSONRPCResponse =
  resp_ID :: RequestID
  resp_Result :: RawMessage

record JSONRPCError =
  err_ID :: RequestID
  err_Error :: JSONRPCErrorError

datatype message =
    MsgResponse JSONRPCResponse
  | MsgError JSONRPCError
  | MsgRequest JSONRPCRequest
  | MsgNotification JSONRPCNotification

record envelope =
  env_ID :: RawMessage
  env_Method :: string
  env_Params :: RawMessage
  env_Result :: RawMessage
  env_Error :: "JSONRPCErrorError option"

subsection \<open>Decoding the envelope\<close>

text \<open>
  \<open>json.Unmarshal\<close> into a struct matches an object key with a field name exactly, or
  else up to case folding. \<open>foldName\<close> upper-cases ASCII letters and maps the two
  non-ASCII runes that fold to ASCII letters (U+017F to S, U+212A to K); the folding of
  other non-ASCII runes cannot produce an ASCII field name and is left out.
\<close>

function foldName :: "string \<Rightarrow> string" where
  "foldName [] = []"
| "foldName (c # cs) =
     (if in_range 0x61 0x7A c then char_of (byte c - 0x20) # foldName cs
      else if take 2 (c # cs) = [CHR 0xC5, CHR 0xBF] then CHR ''S'' # foldName (drop 1 cs)
      else if take 3 (c # cs) = [CHR 0xE2, CHR 0x84, CHR 0xAA] then CHR ''K'' # foldName (drop 2 cs)
      else c # foldName cs)"
  by pat_completeness auto
termination
  by (relation "measure length") auto

definition find_field :: "string list \<Rightarrow> string \<Rightarrow> string option" where
  "find_field names key =
     (if key \<in> set names then Some key else find (\<lambda>n. foldName n = foldName key) names)"

text \<open>
  The decoder keeps the first type error and goes on; members are stored in the order
  of the text, a later member overwriting an earlier one.
\<close>

definition saveError :: "error option \<Rightarrow> error option \<Rightarrow> error option" where
  "saveError saved e = (case saved of None \<Rightarrow> e | Some _ \<Rightarrow> saved)"

definition zeroErrorError :: JSONRPCErrorError where
  "zeroErrorError = \<lparr>Code = 0, Message = [], Data = None\<rparr>"

definition set_error_field ::
  "JSONRPCErrorError \<times> error option \<Rightarrow> string \<times> json \<Rightarrow> JSONRPCErrorError \<times> error option" where
  "set_error_field st m =
     (case (st, m) of
        ((e, saved), (key, v)) \<Rightarrow>
          (case find_field [''code'', ''message'', ''data''] key of
             None \<Rightarrow> (e, saved)
           | Some f \<Rightarrow>
               if f = ''code'' then
                 (case store_int64 v (Code e) of (n, err) \<Rightarrow> (e\<lparr>Code := n\<rparr>, saveError saved err))
               else if f = ''message'' then
                 (case store_string v (Message e) of (s, err) \<Rightarrow> (e\<lparr>Message := s\<rparr>, saveError saved err))
               else (e\<lparr>Data := Some v\<rparr>, saved)))"

definition store_error_ptr ::
  "json \<Rightarrow> JSONRPCErrorError option \<Rightarrow> error option \<Rightarrow> JSONRPCErrorError option \<times> error option" where
  "store_error_ptr v cur saved =
     (case v of
        JNull \<Rightarrow> (None, saved)
      | JObj ms \<Rightarrow>
          (case foldl set_error_field (case cur of None \<Rightarrow> zeroErrorError | Some e \<Rightarrow> e, saved) ms of
             (e, saved') \<Rightarrow> (Some e, saved'))
      | _ \<Rightarrow>
          (Some (case cur of None \<Rightarrow> zeroErrorError | Some e \<Rightarrow> e),
           saveError saved (Some (ErrUnmarshalType (kind_of v) ''rpc.JSONRPCErrorError''))))"

definition zeroEnvelope :: envelope where
  "zeroEnvelope = \<lparr>env_ID = None, env_Method = [], env_Params = None, env_Result = None, env_Error = None\<rparr>"

definition set_envelope_field ::
  "envelope \<times> error option \<Rightarrow> string \<times> json \<Rightarrow> envelope \<times> error option" where
  "set_envelope_field st m =
     (case (st, m) of
        ((env, saved), (key, v)) \<Rightarrow>
          (case find_field [''id'', ''method'', ''params'', ''result'', ''error''] key of
             None \<Rightarrow> (env, saved)
           | Some f \<Rightarrow>
               if f = ''id'' then (env\<lparr>env_ID := Some v\<rparr>, saved)
               else if f = ''method'' then
                 (case store_string v (env_Method env) of
                    (s, err) \<Rightarrow> (env\<lparr>env_Method := s\<rparr>, saveError saved err))
               else if f = ''params'' then (env\<lparr>env_Params := Some v\<rparr>, saved)
               else if f = ''result'' then (env\<lparr>env_Result := Some v\<rparr>, saved)
               else
                 (case store_error_ptr v (env_Error env) saved of
                    (p, saved') \<Rightarrow> (env\<lparr>env_Error := p\<rparr>, saved'))))"

definition Unmarshal_envelope :: "string \<Rightarrow> error + envelope" where
  "Unmarshal_envelope data =
     (case json_parse data of
        None \<Rightarrow> Inl ErrSyntax
      | Some v \<Rightarrow>
          (case v of
             JObj ms \<Rightarrow>
               (case foldl set_envelope_field (zeroEnvelope, None) ms of
                  (env, None) \<Rightarrow> Inr env
                | (env, Some e) \<Rightarrow> Inl e)
           | JNull \<Rightarrow> Inr zeroEnvelope
           | _ \<Rightarrow> Inl (ErrUnmarshalType (kind_of v) ''struct'')))"

text \<open>
  \<open>parseRequestID\<close> applies \<open>UnmarshalJSON\<close> to the raw bytes of the \<open>id\<close> member: no
  bytes and the value \<open>null\<close> give the zero id.
\<close>

definition parseRequestID :: "RawMessage \<Rightarrow> error + RequestID" where
  "parseRequestID raw =
     (case raw of
        None \<Rightarrow> Inr zeroRequestID
      | Some JNull \<Rightarrow> Inr zeroRequestID
      | Some v \<Rightarrow>
          (case RequestID_of_value v of
             Some i \<Rightarrow> Inr i
           | None \<Rightarrow> Inl (ErrInvalidRequestID (render v))))"

definition parseMessage :: "string \<Rightarrow> error + message" where
  "parseMessage data =
     (case Unmarshal_envelope data of
        Inl e \<Rightarrow> Inl e
      | Inr env \<Rightarrow>
          if env_Method env \<noteq> [] then
            (if env_ID env \<noteq> None then
               (case parseRequestID (env_ID env) of
                  Inl e \<Rightarrow> Inl e
                | Inr i \<Rightarrow>
                    Inr (MsgRequest \<lparr>req_ID = i, req_Method = env_Method env, req_Params = env_Params env\<rparr>))
             else Inr (MsgNotification \<lparr>note_Method = env_Method env, note_Params = env_Params env\<rparr>))
          else if env_Result env \<noteq> None then
            (case parseRequestID (env_ID env) of
               Inl e \<Rightarrow> Inl e
             | Inr i \<Rightarrow> Inr (MsgResponse \<lparr>resp_ID = i, resp_Result = env_Result env\<rparr>))
          else
            (case env_Error env of
               Some detail \<Rightarrow>
                 (case parseRequestID (env_ID env) of
                    Inl e \<Rightarrow> Inl e
                  | Inr i \<Rightarrow> Inr (MsgError \<lparr>err_ID = i, err_Error = detail\<rparr>))
             | None \<Rightarrow> Inl ErrUnrecognized))"

subsection \<open>Encoding messages\<close>

text \<open>
  \<open>json.Marshal\<close> of the four message structs: fields in declaration order, \<open>omitempty\<close>
  fields left out when empty, a nil \<open>RawMessage\<close> written as \<open>null\<close>.
\<close>

definition render_raw :: "RawMessage \<Rightarrow> string" where
  "render_raw raw = (case raw of None \<Rightarrow> ''null'' | Some v \<Rightarrow> render v)"

definition omitempty :: "string \<Rightarrow> RawMessage \<Rightarrow> string" where
  "omitempty name raw = (case raw of None \<Rightarrow> [] | Some v \<Rightarrow> '','' @ quote name @ '':'' @ render v)"

definition marshal_request :: "JSONRPCRequest \<Rightarrow> string" where
  "marshal_request r =
     ''{'' @ quote ''id'' @ '':'' @ MarshalJSON (req_ID r) @ '','' @ quote ''method'' @ '':''
       @ quote (req_Method r) @ omitempty ''params'' (req_Params r) @ ''}''"

definition marshal_notification :: "JSONRPCNotification \<Rightarrow> string" where
  "marshal_notification n =
     ''{'' @ quote ''method'' @ '':'' @ quote (note_Method n) @ omitempty ''params'' (note_Params n) @ ''}''"

definition marshal_response :: "JSONRPCResponse \<Rightarrow> string" where
  "marshal_response r =
     ''{'' @ quote ''id'' @ '':'' @ MarshalJSON (resp_ID r) @ '','' @ quote ''result'' @ '':''
       @ render_raw (resp_Result r) @ ''}''"

definition marshal_error_detail :: "JSONRPCErrorError \<Rightarrow> string" where
  "marshal_error_detail e =
     ''{'' @ quote ''code'' @ '':'' @ itoa (sint (Code e)) @ '','' @ quote ''message'' @ '':''
       @ quote (Message e) @ omitempty ''data'' (Data e) @ ''}''"

definition marshal_error :: "JSONRPCError \<Rightarrow> string" where
  "marshal_error r =
     ''{'' @ quote ''id'' @ '':'' @ MarshalJSON (err_ID r) @ '','' @ quote ''error'' @ '':''
       @ marshal_error_detail (err_Error r) @ ''}''"

section \<open>Transports\<close>

subsection \<open>White space\<close>

text \<open>
  \<open>strings.TrimSpace\<close> removes leading and trailing Unicode white space:
  \<open>space_width\<close> is the width of a white-space rune at the head of a string (0 if
  there is none), \<open>space_width_rev\<close> the same at the end of a string given reversed.
\<close>

definition space_width :: "string \<Rightarrow> nat" where
  "space_width cs =
     (case cs of
        [] \<Rightarrow> 0
      | c # _ \<Rightarrow>
          if in_range 0x09 0x0D c \<or> c = CHR '' '' then 1
          else if take 2 cs = [CHR 0xC2, CHR 0x85] \<or> take 2 cs = [CHR 0xC2, CHR 0xA0] then 2
          else if take 3 cs = [CHR 0xE1, CHR 0x9A, CHR 0x80]
                 \<or> (take 2 cs = [CHR 0xE2, CHR 0x80] \<and> 2 < length cs
                     \<and> (in_range 0x80 0x8A (cs ! 2) \<or> cs ! 2 = CHR 0xA8 \<or> cs ! 2 = CHR 0xA9
                          \<or> cs ! 2 = CHR 0xAF))
                 \<or> take 3 cs = [CHR 0xE2, CHR 0x81, CHR 0x9F]
                 \<or> take 3 cs = [CHR 0xE3, CHR 0x80, CHR 0x80] then 3
          else 0)"

definition space_width_rev :: "string \<Rightarrow> nat" where
  "space_width_rev rs =
     (case rs of
        [] \<Rightarrow> 0
      | c # _ \<Rightarrow>
          if in_range 0x09 0x0D c \<or> c = CHR '' '' then 1
          else if space_width (rev (take 2 rs)) = 2 then 2
          else if space_width (rev (take 3 rs)) = 3 then 3
          else 0)"

function trim_left :: "string \<Rightarrow> string" where
  "trim_left cs = (if space_width cs = 0 then cs else trim_left (drop (space_width cs) cs))"
  by pat_completeness auto
termination
  by (relation "measure length") (auto simp: space_width_def split: list.splits if_splits)

function trim_right_rev :: "string \<Rightarrow> string" where
  "trim_right_rev rs = (if space_width_rev rs = 0 then rs else trim_right_rev (drop (space_width_rev rs) rs))"
  by pat_completeness auto
termination
  by (relation "measure length") (auto simp: space_width_rev_def split: list.splits if_splits)

declare trim_left.simps [simp del] trim_right_rev.simps [simp del]

definition TrimSpace :: "string \<Rightarrow> string" where
  "TrimSpace s = rev (trim_right_rev (rev (trim_left s)))"

subsection \<open>Comparing lines as JSON values\<close>

text \<open>
  \<open>normalizeJSONLine\<close> decodes a line into an \<open>any\<close> and encodes it again. Decoding
  into a map keeps the last of several members with one key; encoding a map sorts the
  keys. Numbers pass through \<open>float64\<close>: \<open>fmt\<close> stands for that passage (the text the
  encoder prints for the \<open>float64\<close> nearest to a literal, \<open>None\<close> when the literal is out
  of range), which is outside this development and a parameter of it.
\<close>

definition redefine :: "(string \<times> json) list \<Rightarrow> (string \<times> json) list" where
  "redefine ms = foldl (\<lambda>al m. AList.update (fst m) (snd m) al) [] ms"

fun normalize :: "(string \<Rightarrow> string option) \<Rightarrow> json \<Rightarrow> json option"
  and normalize_list :: "(string \<Rightarrow> string option) \<Rightarrow> json list \<Rightarrow> json list option"
  and normalize_members ::
    "(string \<Rightarrow> string option) \<Rightarrow> (string \<times> json) list \<Rightarrow> (string \<times> json) list option"
where
  "normalize fmt JNull = Some JNull"
| "normalize fmt (JBool b) = Some (JBool b)"
| "normalize fmt (JNum l) = map_option JNum (fmt l)"
| "normalize fmt (JStr s) = Some (JStr s)"
| "normalize fmt (JArr vs) = map_option JArr (normalize_list fmt vs)"
| "normalize fmt (JObj ms) =
     map_option (\<lambda>ms'. JObj (sort_key fst (redefine ms'))) (normalize_members fmt ms)"
| "normalize_list fmt [] = Some []"
| "normalize_list fmt (v # vs) =
     (case normalize fmt v of
        None \<Rightarrow> (case normalize_list fmt vs of _ \<Rightarrow> None)
      | Some v' \<Rightarrow> map_option ((#) v') (normalize_list fmt vs))"
| "normalize_members fmt [] = Some []"
| "normalize_members fmt (m # ms) =
     (case normalize fmt (snd m) of
        None \<Rightarrow> None
      | Some v' \<Rightarrow> map_option ((#) (fst m, v')) (normalize_members fmt ms))"

definition normalizeJSONLine :: "(string \<Rightarrow> string option) \<Rightarrow> string \<Rightarrow> string option" where
  "normalizeJSONLine fmt line =
     (if TrimSpace line = [] then None
      else
        (case json_parse (TrimSpace line) of
           None \<Rightarrow> None
         | Some payload \<Rightarrow> map_option render (normalize fmt payload)))"

definition equalJSONLine :: "(string \<Rightarrow> string option) \<Rightarrow> string \<Rightarrow> string \<Rightarrow> bool" where
  "equalJSONLine fmt expected actual =
     (case normalizeJSONLine fmt expected of
        None \<Rightarrow> False
      | Some expectedNorm \<Rightarrow>
          (case normalizeJSONLine fmt actual of
             None \<Rightarrow> False
           | Some actualNorm \<Rightarrow> expectedNorm = actualNorm))"

subsection \<open>Process and connection transports: reading a line\<close>

text \<open>
  \<open>StdioTransport\<close> and \<open>ConnTransport\<close> read through a \<open>bufio.Reader\<close>. The reader is
  modelled by the bytes the stream still delivers and the error the stream reports once
  they are used up (\<open>io.EOF\<close> for a stream that ends).
\<close>

record Reader =
  unread :: string
  terminal :: error

text \<open>
  \<open>bufio.Reader.ReadString(delim)\<close>: the data up to and including the first delimiter; when
  the stream fails before a delimiter is found, the data read so far together with the error.
\<close>

definition ReadString :: "Reader \<Rightarrow> char \<Rightarrow> (string \<times> error option) \<times> Reader" where
  "ReadString r delim =
     (if delim \<in> set (unread r)
      then ((takeWhile (\<lambda>c. c \<noteq> delim) (unread r) @ [delim], None),
            r\<lparr>unread := tl (dropWhile (\<lambda>c. c \<noteq> delim) (unread r))\<rparr>)
      else ((unread r, Some (terminal r)), r\<lparr>unread := []\<rparr>))"

text \<open>\<open>strings.TrimRight(line, "\n")\<close>: every trailing newline is removed.\<close>

definition TrimRight_nl :: "string \<Rightarrow> string" where
  "TrimRight_nl line = rev (dropWhile (\<lambda>c. c = CHR 0x0A) (rev line))"

text \<open>\<open>StdioTransport.ReadLine\<close>, over the reader on the child's standard output.\<close>

definition StdioTransport_ReadLine :: "Reader \<Rightarrow> (string \<times> error option) \<times> Reader" where
  "StdioTransport_ReadLine stdout =
     (case ReadString stdout (CHR 0x0A) of
        ((line, Some err), stdout') \<Rightarrow>
          (if err = EOF \<and> line \<noteq> [] then ((TrimRight_nl line, None), stdout')
           else (([], Some err), stdout'))
      | ((line, None), stdout') \<Rightarrow> ((TrimRight_nl line, None), stdout'))"

text \<open>\<open>ConnTransport.ReadLine\<close>, over the reader on the connection.\<close>

definition ConnTransport_ReadLine :: "Reader \<Rightarrow> (string \<times> error option) \<times> Reader" where
  "ConnTransport_ReadLine reader =
     (case ReadString reader (CHR 0x0A) of
        ((line, Some err), reader') \<Rightarrow>
          (if err = EOF \<and> line \<noteq> [] then ((TrimRight_nl line, None), reader')
           else (([], Some err), reader'))
      | ((line, None), reader') \<Rightarrow> ((TrimRight_nl line, None), reader'))"

text \<open>\<open>ResponseError.Error\<close>.\<close>

definition ResponseError_Error :: "ResponseError \<Rightarrow> string" where
  "ResponseError_Error e =
     ''json-rpc error '' @ itoa (sint (Code (Detail e))) @ '': '' @ Message (Detail e)"

subsection \<open>Blocking operations\<close>

text \<open>
  An operation that may wait is a function from the state to \<open>Blocks\<close> (in this state it
  waits, and changes nothing) or \<open>Returns\<close> of its effect and result.
\<close>

datatype 'a blocking = Blocks | Returns 'a

subsection \<open>The replay transport\<close>

record TranscriptEntry =
  Direction :: string
  Line :: string

definition TranscriptRead :: string where "TranscriptRead = ''read''"
definition TranscriptWrite :: string where "TranscriptWrite = ''write''"

record ReplayTransport =
  transcript :: "TranscriptEntry list"
  index :: nat
  closed :: bool

definition NewReplayTransport :: "TranscriptEntry list \<Rightarrow> ReplayTransport" where
  "NewReplayTransport entries = \<lparr>transcript = entries, index = 0, closed = False\<rparr>"

definition ReplayTransport_ReadLine ::
  "ReplayTransport \<Rightarrow> (ReplayTransport \<times> string \<times> error option) blocking" where
  "ReplayTransport_ReadLine t =
     (if closed t then Returns (t, [], Some EOF)
      else if index t < length (transcript t)
              \<and> Direction (transcript t ! index t) = TranscriptRead
      then Returns (t\<lparr>index := index t + 1\<rparr>, Line (transcript t ! index t), None)
      else Blocks)"

definition ReplayTransport_WriteLine ::
  "(string \<Rightarrow> string option) \<Rightarrow> ReplayTransport \<Rightarrow> string
     \<Rightarrow> (ReplayTransport \<times> error option) blocking" where
  "ReplayTransport_WriteLine fmt t line =
     (if closed t then Returns (t, Some ErrReplayClosed)
      else if index t \<ge> length (transcript t) then Returns (t, Some ErrNoEntries)
      else if Direction (transcript t ! index t) = TranscriptWrite then
        (if Line (transcript t ! index t) \<noteq> line
            \<and> \<not> equalJSONLine fmt (Line (transcript t ! index t)) line
         then Returns (t, Some (ErrMismatch line (Line (transcript t ! index t))))
         else Returns (t\<lparr>index := index t + 1\<rparr>, None))
      else Blocks)"

definition ReplayTransport_Close :: "ReplayTransport \<Rightarrow> ReplayTransport \<times> error option" where
  "ReplayTransport_Close t = (t\<lparr>closed := True\<rparr>, None)"

subsection \<open>The Transport interface\<close>

record 't Transport =
  ReadLine :: "'t \<Rightarrow> ('t \<times> string \<times> error option) blocking"
  WriteLine :: "'t \<Rightarrow> string \<Rightarrow> ('t \<times> error option) blocking"
  Close :: "'t \<Rightarrow> 't \<times> error option"

definition replay :: "(string \<Rightarrow> string option) \<Rightarrow> ReplayTransport Transport" where
  "replay fmt =
     \<lparr>ReadLine = ReplayTransport_ReadLine,
      WriteLine = ReplayTransport_WriteLine fmt,
      Close = ReplayTransport_Close\<rparr>"

section \<open>The client\<close>

text \<open>
  A Go value of type \<open>any\<close> that is only ever handed to \<open>json.Marshal\<close> is modelled by what
  \<open>json.Marshal\<close> makes of it.
\<close>

datatype any = Unmarshalable string | Marshals json

definition Marshal :: "any \<Rightarrow> error + json" where
  "Marshal v = (case v of Unmarshalable t \<Rightarrow> Inl (ErrMarshal t) | Marshals j \<Rightarrow> Inr j)"

datatype payload =
    PRequest JSONRPCRequest
  | PNotification JSONRPCNotification
  | PResponse JSONRPCResponse
  | PError JSONRPCError
  | PValue any

definition marshal_payload :: "payload \<Rightarrow> error + string" where
  "marshal_payload p =
     (case p of
        PRequest r \<Rightarrow> Inr (marshal_request r)
      | PNotification n \<Rightarrow> Inr (marshal_notification n)
      | PResponse r \<Rightarrow> Inr (marshal_response r)
      | PError e \<Rightarrow> Inr (marshal_error e)
      | PValue v \<Rightarrow> (case Marshal v of Inl e \<Rightarrow> Inl e | Inr j \<Rightarrow> Inr (render j)))"

text \<open>
  Modelled from the spec: \<open>BuildClientRequest\<close> (generated code of package rpc that is
  not among the sources). The spec has \<open>Call\<close> serialize the params to opaque JSON, a
  failure there being reported at once, and write a request line of id, method and
  params.
\<close>

definition BuildClientRequest :: "string \<Rightarrow> any \<Rightarrow> RequestID \<Rightarrow> error + payload" where
  "BuildClientRequest method params i =
     (case Marshal params of
        Inl e \<Rightarrow> Inl e
      | Inr raw \<Rightarrow> Inr (PRequest \<lparr>req_ID = i, req_Method = method, req_Params = Some raw\<rparr>))"

text \<open>
  Modelled from the spec: \<open>parseServerNotification\<close> (generated code, not among the
  sources). The spec forwards the raw notification whether or not its params decode
  into the shape registered for the method; the typed view and the logged decode
  failure are left out.
\<close>

record Notification =
  Method :: string
  Raw :: RawMessage

definition parseServerNotification :: "string \<Rightarrow> RawMessage \<Rightarrow> Notification" where
  "parseServerNotification method params = \<lparr>Method = method, Raw = params\<rparr>"

text \<open>
  The client. \<open>pending\<close> maps a request key to the address of the caller's response
  channel, \<open>subs\<close> a subscription number to the address of a subscription; \<open>chans\<close> and
  \<open>subscriptions\<close> are the store of those objects, \<open>chan_count\<close> and \<open>sub_count\<close> the next
  unused addresses. \<open>handler\<close> is the installed server-request handler composed with
  \<open>dispatchServerRequest\<close>. \<open>cdone\<close> says that the channel \<open>done\<close> is closed. The logger
  is left out.

  Modelled from the spec: \<open>dispatchServerRequest\<close> (generated code, not among the
  sources) decodes the params for the method, invokes the handler and returns its
  response, or an error whose message is the left value.
\<close>

record response =
  res_result :: RawMessage
  res_err :: "error option"

record notificationSubscription =
  queue :: "Notification list"
  sub_done :: bool
  sub_doneOnce :: bool

record 't Client =
  transport :: 't
  nextID :: int64
  pending :: "(string \<times> nat) list"
  subs :: "(int \<times> nat) list"
  nextSub :: int
  handler :: "(JSONRPCRequest \<Rightarrow> string + any) option"
  cdone :: bool
  doneOnce :: bool
  err :: "error option"
  chans :: "nat \<Rightarrow> response list"
  chan_count :: nat
  subscriptions :: "nat \<Rightarrow> notificationSubscription"
  sub_count :: nat

definition NewClient :: "'t \<Rightarrow> (JSONRPCRequest \<Rightarrow> string + any) option \<Rightarrow> 't Client" where
  "NewClient tr h =
     \<lparr>transport = tr, nextID = 0, pending = [], subs = [], nextSub = 0, handler = h,
      cdone = False, doneOnce = False, err = None,
      chans = (\<lambda>_. []), chan_count = 0,
      subscriptions = (\<lambda>_. \<lparr>queue = [], sub_done = False, sub_doneOnce = False\<rparr>), sub_count = 0\<rparr>"

definition errOrClosed :: "'t Client \<Rightarrow> error" where
  "errOrClosed c = (case err c of Some e \<Rightarrow> e | None \<Rightarrow> ErrConnectionClosed)"

definition ensureOpen :: "'t Client \<Rightarrow> error option" where
  "ensureOpen c = (if cdone c then Some (errOrClosed c) else None)"

definition nextRequestID :: "'t Client \<Rightarrow> 't Client \<times> RequestID" where
  "nextRequestID c = (c\<lparr>nextID := nextID c + 1\<rparr>, NewIntRequestID (nextID c + 1))"

definition deletePending :: "'t Client \<Rightarrow> RequestID \<Rightarrow> 't Client" where
  "deletePending c i = c\<lparr>pending := AList.delete (Key i) (pending c)\<rparr>"

text \<open>\<open>make(chan response, 1)\<close>, and a send to such a channel: it waits while the slot is full.\<close>

definition make_chan :: "'t Client \<Rightarrow> 't Client \<times> nat" where
  "make_chan c = (c\<lparr>chans := (chans c)(chan_count c := []), chan_count := chan_count c + 1\<rparr>, chan_count c)"

definition chan_send :: "'t Client \<Rightarrow> nat \<Rightarrow> response \<Rightarrow> 't Client blocking" where
  "chan_send c ch r =
     (if length (chans c ch) < 1 then Returns (c\<lparr>chans := (chans c)(ch := chans c ch @ [r])\<rparr>)
      else Blocks)"

definition send :: "'t Transport \<Rightarrow> 't Client \<Rightarrow> payload \<Rightarrow> ('t Client \<times> error option) blocking" where
  "send T c p =
     (case marshal_payload p of
        Inl e \<Rightarrow> Returns (c, Some e)
      | Inr data \<Rightarrow>
          (case WriteLine T (transport c) data of
             Blocks \<Rightarrow> Blocks
           | Returns (t', e) \<Rightarrow> Returns (c\<lparr>transport := t'\<rparr>, e)))"

text \<open>
  \<open>Call\<close>, in the three parts between which the calling goroutine can be observed:
  up to the request being built (\<open>Call_register\<close>), the write (\<open>Call_send\<close>), and the
  \<open>select\<close> (\<open>Call_select\<close>: one outcome for each case that is ready). \<open>ctx\<close> is the
  error of the caller's context once it is done; \<open>out\<close> is \<open>json.Unmarshal\<close> into the
  caller's result, \<open>None\<close> for a nil result.
\<close>

definition Call_register ::
  "'t Client \<Rightarrow> string \<Rightarrow> any \<Rightarrow> 't Client \<times> (error + RequestID \<times> nat \<times> payload)" where
  "Call_register c method params =
     (case ensureOpen c of
        Some e \<Rightarrow> (c, Inl e)
      | None \<Rightarrow>
          (case nextRequestID c of
             (c1, i) \<Rightarrow>
               (case make_chan c1 of
                  (c2, respCh) \<Rightarrow>
                    (case BuildClientRequest method params i of
                       Inl e \<Rightarrow>
                         (deletePending (c2\<lparr>pending := AList.update (Key i) respCh (pending c2)\<rparr>) i, Inl e)
                     | Inr p \<Rightarrow>
                         (c2\<lparr>pending := AList.update (Key i) respCh (pending c2)\<rparr>,
                          Inr (i, respCh, p))))))"

definition Call_send ::
  "'t Transport \<Rightarrow> 't Client \<Rightarrow> RequestID \<Rightarrow> payload \<Rightarrow> ('t Client \<times> error option) blocking" where
  "Call_send T c i p =
     (case send T c p of
        Blocks \<Rightarrow> Blocks
      | Returns (c', Some e) \<Rightarrow> Returns (deletePending c' i, Some e)
      | Returns (c', None) \<Rightarrow> Returns (c', None))"

definition Unmarshal_result :: "RawMessage \<Rightarrow> (json \<Rightarrow> error + 'a) \<Rightarrow> error + 'a" where
  "Unmarshal_result raw dec = (case raw of None \<Rightarrow> Inl ErrSyntax | Some v \<Rightarrow> dec v)"

definition Call_select ::
  "'t Client \<Rightarrow> error option \<Rightarrow> RequestID \<Rightarrow> nat \<Rightarrow> (json \<Rightarrow> error + 'a) option
     \<Rightarrow> ('t Client \<times> (error + 'a option)) list" where
  "Call_select c ctx i respCh out =
     (if cdone c then [(deletePending c i, Inl (errOrClosed c))] else [])
     @ (case ctx of Some e \<Rightarrow> [(deletePending c i, Inl e)] | None \<Rightarrow> [])
     @ (case chans c respCh of
          [] \<Rightarrow> []
        | resp # rest \<Rightarrow>
            [(c\<lparr>chans := (chans c)(respCh := rest)\<rparr>,
              (case res_err resp of
                 Some e \<Rightarrow> Inl e
               | None \<Rightarrow>
                   (case out of
                      None \<Rightarrow> Inr None
                    | Some dec \<Rightarrow> map_sum id Some (Unmarshal_result (res_result resp) dec))))])"

definition handleResponse :: "'t Client \<Rightarrow> JSONRPCResponse \<Rightarrow> 't Client blocking" where
  "handleResponse c resp =
     (case map_of (pending c) (Key (resp_ID resp)) of
        None \<Rightarrow> Returns (c\<lparr>pending := AList.delete (Key (resp_ID resp)) (pending c)\<rparr>)
      | Some ch \<Rightarrow>
          chan_send (c\<lparr>pending := AList.delete (Key (resp_ID resp)) (pending c)\<rparr>) ch
            \<lparr>res_result = resp_Result resp, res_err = None\<rparr>)"

definition handleError :: "'t Client \<Rightarrow> JSONRPCError \<Rightarrow> 't Client blocking" where
  "handleError c resp =
     (case map_of (pending c) (Key (err_ID resp)) of
        None \<Rightarrow> Returns (c\<lparr>pending := AList.delete (Key (err_ID resp)) (pending c)\<rparr>)
      | Some ch \<Rightarrow>
          chan_send (c\<lparr>pending := AList.delete (Key (err_ID resp)) (pending c)\<rparr>) ch
            \<lparr>res_result = None,
             res_err = Some (ErrResponse \<lparr>ID = err_ID resp, Detail = err_Error resp\<rparr>)\<rparr>)"

text \<open>
  A subscription: the notifications accepted and not yet taken (the goroutine's queue
  and the \<open>out\<close> channel together), and whether \<open>done\<close> is closed.
\<close>

definition publish :: "notificationSubscription \<Rightarrow> Notification \<Rightarrow> notificationSubscription" where
  "publish s note = (if sub_done s then s else s\<lparr>queue := queue s @ [note]\<rparr>)"

definition sub_close :: "notificationSubscription \<Rightarrow> notificationSubscription" where
  "sub_close s = (if sub_doneOnce s then s else s\<lparr>sub_doneOnce := True, sub_done := True\<rparr>)"

definition handleNotification :: "'t Client \<Rightarrow> JSONRPCNotification \<Rightarrow> 't Client" where
  "handleNotification c note =
     foldl (\<lambda>c' a. c'\<lparr>subscriptions := (subscriptions c')
                         (a := publish (subscriptions c' a)
                                 (parseServerNotification (note_Method note) (note_Params note)))\<rparr>)
       c (map snd (subs c))"

definition replyError ::
  "'t Transport \<Rightarrow> 't Client \<Rightarrow> RequestID \<Rightarrow> int64 \<Rightarrow> string \<Rightarrow> RawMessage
     \<Rightarrow> ('t Client \<times> error option) blocking" where
  "replyError T c i code message data =
     send T c (PError \<lparr>err_ID = i, err_Error = \<lparr>Code = code, Message = message, Data = data\<rparr>\<rparr>)"

definition replyResult ::
  "'t Transport \<Rightarrow> 't Client \<Rightarrow> RequestID \<Rightarrow> any \<Rightarrow> ('t Client \<times> error option) blocking" where
  "replyResult T c i result =
     (case Marshal result of
        Inl e \<Rightarrow> Returns (c, Some e)
      | Inr data \<Rightarrow> send T c (PResponse \<lparr>resp_ID = i, resp_Result = Some data\<rparr>))"

definition discard_error :: "('c \<times> error option) blocking \<Rightarrow> 'c blocking" where
  "discard_error r = (case r of Blocks \<Rightarrow> Blocks | Returns (c, _) \<Rightarrow> Returns c)"

definition handleServerRequest ::
  "'t Transport \<Rightarrow> 't Client \<Rightarrow> JSONRPCRequest \<Rightarrow> 't Client blocking" where
  "handleServerRequest T c req =
     (case handler c of
        None \<Rightarrow> discard_error (replyError T c (req_ID req) (- 32601) ''no handler configured'' None)
      | Some h \<Rightarrow>
          (case h req of
             Inl msg \<Rightarrow> discard_error (replyError T c (req_ID req) (- 32602) msg None)
           | Inr result \<Rightarrow> discard_error (replyResult T c (req_ID req) result)))"

text \<open>\<open>finish\<close>: the body runs once (\<open>doneOnce\<close>).\<close>

fun send_each :: "'t Client \<Rightarrow> nat list \<Rightarrow> response \<Rightarrow> 't Client blocking" where
  "send_each c [] r = Returns c"
| "send_each c (ch # chs) r =
     (case chan_send c ch r of Blocks \<Rightarrow> Blocks | Returns c' \<Rightarrow> send_each c' chs r)"

definition close_each :: "'t Client \<Rightarrow> nat list \<Rightarrow> 't Client" where
  "close_each c as =
     foldl (\<lambda>c' a. c'\<lparr>subscriptions := (subscriptions c')(a := sub_close (subscriptions c' a))\<rparr>) c as"

definition finish :: "'t Client \<Rightarrow> error \<Rightarrow> 't Client blocking" where
  "finish c e =
     (if doneOnce c then Returns c
      else
        (case send_each (c\<lparr>doneOnce := True, err := Some e, cdone := True\<rparr>) (map snd (pending c))
                \<lparr>res_result = None, res_err = Some e\<rparr> of
           Blocks \<Rightarrow> Blocks
         | Returns c' \<Rightarrow> Returns (close_each (c'\<lparr>pending := [], subs := []\<rparr>) (map snd (subs c')))))"

definition Client_Close :: "'t Transport \<Rightarrow> 't Client \<Rightarrow> ('t Client \<times> error option) blocking" where
  "Client_Close T c =
     (case finish c ErrClientClosed of
        Blocks \<Rightarrow> Blocks
      | Returns c' \<Rightarrow>
          (case Close T (transport c') of (t', e) \<Rightarrow> Returns (c'\<lparr>transport := t'\<rparr>, e)))"

text \<open>One iteration of \<open>readLoop\<close>.\<close>

datatype loop = Continue | Exit

definition continue :: "'c blocking \<Rightarrow> ('c \<times> loop) blocking" where
  "continue r = (case r of Blocks \<Rightarrow> Blocks | Returns c \<Rightarrow> Returns (c, Continue))"

definition readLoop_iteration :: "'t Transport \<Rightarrow> 't Client \<Rightarrow> ('t Client \<times> loop) blocking" where
  "readLoop_iteration T c =
     (case ReadLine T (transport c) of
        Blocks \<Rightarrow> Blocks
      | Returns (t', line, Some e) \<Rightarrow>
          (case finish (c\<lparr>transport := t'\<rparr>) e of
             Blocks \<Rightarrow> Blocks
           | Returns c' \<Rightarrow> Returns (c', Exit))
      | Returns (t', line, None) \<Rightarrow>
          if TrimSpace line = [] then Returns (c\<lparr>transport := t'\<rparr>, Continue)
          else
            (case parseMessage line of
               Inl e \<Rightarrow> Returns (c\<lparr>transport := t'\<rparr>, Continue)
             | Inr (MsgResponse r) \<Rightarrow> continue (handleResponse (c\<lparr>transport := t'\<rparr>) r)
             | Inr (MsgError r) \<Rightarrow> continue (handleError (c\<lparr>transport := t'\<rparr>) r)
             | Inr (MsgRequest r) \<Rightarrow> continue (handleServerRequest T (c\<lparr>transport := t'\<rparr>) r)
             | Inr (MsgNotification n) \<Rightarrow> Returns (handleNotification (c\<lparr>transport := t'\<rparr>) n, Continue)))"

text \<open>Subscribing, and closing an iterator.\<close>

definition newNotificationSubscription :: "'t Client \<Rightarrow> int \<Rightarrow> 't Client \<times> nat" where
  "newNotificationSubscription c buffer =
     (c\<lparr>subscriptions := (subscriptions c)
           (sub_count c := \<lparr>queue = [], sub_done = False, sub_doneOnce = False\<rparr>),
        sub_count := sub_count c + 1\<rparr>,
      sub_count c)"

definition SubscribeNotifications :: "'t Client \<Rightarrow> int \<Rightarrow> 't Client \<times> int \<times> nat" where
  "SubscribeNotifications c buffer =
     (case newNotificationSubscription c buffer of
        (c1, sub) \<Rightarrow>
          (c1\<lparr>subs := AList.update (nextSub c1) sub (subs c1), nextSub := nextSub c1 + 1\<rparr>,
           (nextSub c1, sub)))"

definition NotificationIterator_Close :: "'t Client \<Rightarrow> int \<Rightarrow> 't Client" where
  "NotificationIterator_Close c i =
     (case map_of (subs c) i of
        None \<Rightarrow> c\<lparr>subs := AList.delete i (subs c)\<rparr>
      | Some sub \<Rightarrow>
          c\<lparr>subs := AList.delete i (subs c),
            subscriptions := (subscriptions c)(sub := sub_close (subscriptions c sub))\<rparr>)"

text \<open>
  \<open>Call\<close> as a goroutine: where it stands, and the moves it can make from there (none
  when it waits).
\<close>

datatype 'a call_state =
    Registering string any
  | Sending RequestID nat payload
  | Waiting RequestID nat
  | Returned "error + 'a option"

definition Call_step ::
  "'t Transport \<Rightarrow> error option \<Rightarrow> (json \<Rightarrow> error + 'a) option \<Rightarrow> 't Client \<Rightarrow> 'a call_state
     \<Rightarrow> ('t Client \<times> 'a call_state) list" where
  "Call_step T ctx out c k =
     (case k of
        Registering method params \<Rightarrow>
          (case Call_register c method params of
             (c', Inl e) \<Rightarrow> [(c', Returned (Inl e))]
           | (c', Inr (i, respCh, p)) \<Rightarrow> [(c', Sending i respCh p)])
      | Sending i respCh p \<Rightarrow>
          (case Call_send T c i p of
             Blocks \<Rightarrow> []
           | Returns (c', Some e) \<Rightarrow> [(c', Returned (Inl e))]
           | Returns (c', None) \<Rightarrow> [(c', Waiting i respCh)])
      | Waiting i respCh \<Rightarrow> map (\<lambda>(c', r). (c', Returned r)) (Call_select c ctx i respCh out)
      | Returned r \<Rightarrow> [])"

text \<open>
  A caller and the read loop running together: a state is the client, where the call
  stands, and whether the loop is still running. One move is a move of the caller or
  one iteration of the loop.
\<close>

inductive step ::
  "'t Transport \<Rightarrow> error option \<Rightarrow> (json \<Rightarrow> error + 'a) option
     \<Rightarrow> 't Client \<times> 'a call_state \<times> bool \<Rightarrow> 't Client \<times> 'a call_state \<times> bool \<Rightarrow> bool"
  for T ctx out
where
  caller: "(c', k') \<in> set (Call_step T ctx out c k) \<Longrightarrow> step T ctx out (c, k, l) (c', k', l)"
| reader: "readLoop_iteration T c = Returns (c', lp) \<Longrightarrow>
           step T ctx out (c, k, True) (c', k, lp = Continue)"

section \<open>Evaluating the model on concrete inputs\<close>

text \<open>The definitions that the simplifier unfolds to run the model on a given line.\<close>

lemma eq_char_of_iff: "c = char_of n \<longleftrightarrow> take_bit 8 n = of_char c"
  using char_of_eq_iff [of n c] by auto

lemmas json_eval =
  byte_def dquote_def bslash_def in_range_def is_digit_def hexchar_def hexval_def replacement_def
  two_bytes_def three_bytes_def four_bytes_def rune_size_def
  EncodeRune_def escape_ascii_def quote_def hex4_def getu4_def simple_escape_def
  scan_frac_def scan_sign_def scan_exp_def scan_int_def scan_number_def
  is_json_space_def punct_def keyword_def maxNestingDepth_def begin_value_def close_array_def
  close_object_def take_key_def parse_step_def json_parse_def Let_def char_of_eq_iff eq_char_of_iff

lemmas norm_eval = space_width_def space_width_rev_def trim_left.simps trim_right_rev.simps TrimSpace_def
  redefine_def normalizeJSONLine_def equalJSONLine_def

lemmas wire_eval =
  itoa_def parse_nat_def ParseInt64_def NewStringRequestID_def NewIntRequestID_def zeroRequestID_def
  Key_def MarshalJSON_def store_string_def store_int64_def RequestID_of_value_def UnmarshalJSON_def
  find_field_def saveError_def zeroErrorError_def set_error_field_def store_error_ptr_def
  zeroEnvelope_def set_envelope_field_def Unmarshal_envelope_def parseRequestID_def parseMessage_def
  render_raw_def omitempty_def marshal_request_def marshal_notification_def marshal_response_def
  marshal_error_detail_def marshal_error_def digits.simps ResponseError_Error_def

lemmas client_eval =
  TranscriptRead_def TranscriptWrite_def NewReplayTransport_def ReplayTransport_ReadLine_def
  ReplayTransport_WriteLine_def ReplayTransport_Close_def replay_def Marshal_def marshal_payload_def
  BuildClientRequest_def parseServerNotification_def NewClient_def errOrClosed_def ensureOpen_def
  nextRequestID_def deletePending_def make_chan_def chan_send_def send_def Call_register_def
  Call_send_def Unmarshal_result_def Call_select_def handleResponse_def handleError_def publish_def
  sub_close_def handleNotification_def replyError_def replyResult_def discard_error_def
  handleServerRequest_def close_each_def finish_def Client_Close_def continue_def
  readLoop_iteration_def Call_step_def

section \<open>Reading the last line of a stream\<close>

lemma TrimRight_nl_no_newline:
  "CHR 0x0A \<notin> set line \<Longrightarrow> TrimRight_nl line = line"
proof (cases "rev line")
  case Nil
  then show ?thesis by (simp add: TrimRight_nl_def)
next
  case (Cons c cs)
  assume "CHR 0x0A \<notin> set line"
  with Cons have "c \<noteq> CHR 0x0A"
    by (metis list.set_intros(1) set_rev)
  with Cons have "dropWhile (\<lambda>c. c = CHR 0x0A) (rev line) = rev line" by simp
  then show ?thesis by (simp add: TrimRight_nl_def)
qed

text \<open>
  C10. When the stream ends at end-of-file with a non-empty final line that has no
  trailing newline, ReadLine of the process transport and of the connection transport
  returns that line with a nil error, and the next ReadLine returns io.EOF.
\<close>

theorem ReadLine_partial_final_line:
  assumes "unread r = partial" and "partial \<noteq> []" and "CHR 0x0A \<notin> set partial"
    and "terminal r = EOF"
  shows "StdioTransport_ReadLine r = ((partial, None), r\<lparr>unread := []\<rparr>)
       \<and> StdioTransport_ReadLine (r\<lparr>unread := []\<rparr>) = (([], Some EOF), r\<lparr>unread := []\<rparr>)
       \<and> ConnTransport_ReadLine r = ((partial, None), r\<lparr>unread := []\<rparr>)
       \<and> ConnTransport_ReadLine (r\<lparr>unread := []\<rparr>) = (([], Some EOF), r\<lparr>unread := []\<rparr>)"
  using assms
  by (simp add: StdioTransport_ReadLine_def ConnTransport_ReadLine_def ReadString_def
      TrimRight_nl_no_newline)

theorem ReadLine_partial_final_line_witness:
  "StdioTransport_ReadLine \<lparr>unread = ''tail'', terminal = EOF\<rparr>
     = ((''tail'', None), \<lparr>unread = [], terminal = EOF\<rparr>)
   \<and> StdioTransport_ReadLine \<lparr>unread = [], terminal = EOF\<rparr>
     = (([], Some EOF), \<lparr>unread = [], terminal = EOF\<rparr>)
   \<and> ConnTransport_ReadLine \<lparr>unread = ''tail'', terminal = EOF\<rparr>
     = ((''tail'', None), \<lparr>unread = [], terminal = EOF\<rparr>)
   \<and> ConnTransport_ReadLine \<lparr>unread = [], terminal = EOF\<rparr>
     = (([], Some EOF), \<lparr>unread = [], terminal = EOF\<rparr>)"
  using ReadLine_partial_final_line
    [of "\<lparr>unread = ''tail'', terminal = EOF\<rparr>" "''tail''"]
  by simp

section \<open>Writing to the replay transport\<close>













section \<open>Request ids: round trip and keys\<close>

lemma byte_char_of: "n < 256 \<Longrightarrow> byte (char_of n) = n"
  by (simp add: byte_def)

lemma char_of_byte: "char_of (byte c) = c"
  by (simp add: byte_def)

lemma byte_eq_iff: "byte c = n \<Longrightarrow> c = char_of n"
  using char_of_byte by metis

lemma byte_lt_256: "byte c < 256"
  by (simp add: byte_def)

lemma digits_nonempty: "digits n \<noteq> []"
  by (subst digits.simps) simp

lemma is_digit_char_of: "(d::nat) < 10 \<Longrightarrow> is_digit (char_of (0x30 + d))"
  by (simp add: is_digit_def in_range_def byte_def)

lemma digits_all: "list_all is_digit (digits n)"
proof (induction n rule: digits.induct)
  case (1 n)
  show ?case
  proof (cases "n < 10")
    case True
    then show ?thesis by (subst digits.simps) (simp add: is_digit_char_of)
  next
    case False
    then show ?thesis
      using 1 by (subst digits.simps) (simp add: is_digit_char_of)
  qed
qed

lemma char_of_zero_iff: "(d::nat) < 10 \<Longrightarrow> char_of (0x30 + d) = CHR ''0'' \<longleftrightarrow> d = 0"
  by (simp add: char_of_eq_iff take_bit_eq_mod)

lemma digits_hd_zero: "hd (digits n) = CHR ''0'' \<Longrightarrow> n = 0"
proof (induction n rule: digits.induct)
  case (1 n)
  show ?case
  proof (cases "n < 10")
    case True
    then show ?thesis
      using "1.prems" by (subst (asm) digits.simps) (simp add: char_of_zero_iff)
  next
    case False
    then have "hd (digits n) = hd (digits (n div 10))"
      by (subst digits.simps) (simp add: digits_nonempty)
    then have "n div 10 = 0"
      using 1 False by simp
    then show ?thesis using False by simp
  qed
qed

lemma digits_zero: "digits 0 = ''0''"
  by (subst digits.simps) (simp add: char_of_eq_iff)

lemma parse_nat_snoc: "parse_nat (ds @ [d]) = 10 * parse_nat ds + (byte d - 0x30)"
  by (simp add: parse_nat_def)

lemma parse_nat_digits: "parse_nat (digits n) = n"
proof (induction n rule: digits.induct)
  case (1 n)
  show ?case
  proof (cases "n < 10")
    case True
    then show ?thesis
      by (subst digits.simps) (simp add: parse_nat_def byte_def)
  next
    case False
    then have "parse_nat (digits n) = 10 * parse_nat (digits (n div 10)) + (byte (char_of (0x30 + n mod 10)) - 0x30)"
      by (subst digits.simps) (simp add: parse_nat_snoc)
    also have "byte (char_of (0x30 + n mod 10)) = 0x30 + n mod 10"
      by (intro byte_char_of) simp
    finally show ?thesis
      using 1 False by simp
  qed
qed

lemma takeWhile_digits: "takeWhile is_digit (digits n) = digits n"
  using digits_all by (simp add: list_all_iff)

lemma dropWhile_digits: "dropWhile is_digit (digits n) = []"
  using digits_all by (simp add: list_all_iff)

lemma scan_int_digits: "scan_int (digits n) = Some (digits n, [])"
proof (cases "digits n")
  case Nil
  then show ?thesis using digits_nonempty by simp
next
  case (Cons d r)
  have all: "list_all is_digit (d # r)"
    using digits_all [of n] Cons by simp
  show ?thesis
  proof (cases "d = CHR ''0''")
    case True
    then have "n = 0" using digits_hd_zero [of n] Cons by simp
    then show ?thesis by (simp add: digits_zero scan_int_def)
  next
    case False
    then show ?thesis
      using all Cons by (simp add: scan_int_def list_all_iff)
  qed
qed

lemma scan_number_digits: "scan_number (digits n) = Some (digits n, [])"
proof -
  have "hd (digits n) \<noteq> CHR ''-''"
    using digits_all [of n] digits_nonempty [of n]
    by (cases "digits n") (auto simp: is_digit_def in_range_def byte_def)
  then have "(case digits n of c # r \<Rightarrow> if c = CHR ''-'' then ([c], r) else ([], digits n) | [] \<Rightarrow> ([], digits n))
              = ([], digits n)"
    by (cases "digits n") auto
  then show ?thesis
    by (simp add: scan_number_def scan_int_digits scan_frac_def scan_exp_def)
qed

lemma scan_number_itoa: "scan_number (itoa i) = Some (itoa i, [])"
  by (simp add: itoa_def scan_number_digits)
    (simp add: scan_number_def scan_int_digits scan_frac_def scan_exp_def)

lemma itoa_cases:
  obtains c r where "itoa i = c # r" "c = CHR ''-'' \<or> is_digit c" "c \<noteq> dquote" "\<not> is_json_space c"
proof (cases "i < 0")
  case True
  then have "itoa i = CHR ''-'' # digits (nat (- i))" by (simp add: itoa_def)
  then show ?thesis by (intro that [of "CHR ''-''"]) (simp_all add: dquote_def is_json_space_def)
next
  case False
  obtain c r where cr: "digits (nat i) = c # r"
    using digits_nonempty [of "nat i"] by (cases "digits (nat i)") auto
  then have d: "is_digit c" using digits_all [of "nat i"] by simp
  then have "c \<noteq> dquote" "\<not> is_json_space c"
    by (auto simp: is_digit_def in_range_def byte_def dquote_def is_json_space_def)
  then show ?thesis using False cr d by (intro that [of c r]) (simp_all add: itoa_def)
qed

lemma tokenize_itoa: "tokenize (itoa i) = Some [TNumber (itoa i)]"
proof -
  obtain c r where cr: "itoa i = c # r" "c = CHR ''-'' \<or> is_digit c" "c \<noteq> dquote" "\<not> is_json_space c"
    by (rule itoa_cases)
  have "tokenize (c # r) = Some [TNumber (itoa i)]"
    using cr scan_number_itoa [of i] by simp
  then show ?thesis using cr by simp
qed

lemma json_parse_itoa: "json_parse (itoa i) = Some (JNum (itoa i))"
  by (simp add: json_parse_def tokenize_itoa parse_step_def begin_value_def)

lemma ParseInt64_itoa:
  assumes "- (2 ^ 63) \<le> i" and "i < 2 ^ 63"
  shows "ParseInt64 (itoa i) = Some (word_of_int i)"
proof (cases "i < 0")
  case True
  then show ?thesis
    using assms digits_nonempty [of "nat (- i)"] digits_all [of "nat (- i)"]
    by (simp add: ParseInt64_def itoa_def parse_nat_digits)
next
  case False
  obtain c r where cr: "digits (nat i) = c # r"
    using digits_nonempty [of "nat i"] by (cases "digits (nat i)") auto
  then have "is_digit c" using digits_all [of "nat i"] by simp
  then have "c \<noteq> CHR ''-''" "c \<noteq> CHR ''+''"
    by (auto simp: is_digit_def in_range_def byte_def)
  then have "(case digits (nat i) of
                c # r \<Rightarrow> if c = CHR ''-'' then (True, r) else if c = CHR ''+'' then (False, r) else (False, digits (nat i))
              | [] \<Rightarrow> (False, digits (nat i))) = (False, digits (nat i))"
    using cr by simp
  then show ?thesis
    using False assms digits_all [of "nat i"] digits_nonempty [of "nat i"]
    by (simp add: ParseInt64_def itoa_def parse_nat_digits)
qed

lemma itoa_not_null: "itoa i \<noteq> [] \<and> itoa i \<noteq> ''null''"
proof -
  obtain c r where cr: "itoa i = c # r" "c = CHR ''-'' \<or> is_digit c" "c \<noteq> dquote" "\<not> is_json_space c"
    by (rule itoa_cases)
  then show ?thesis by (auto simp: is_digit_def in_range_def byte_def)
qed

lemma roundtrip_int: "UnmarshalJSON (MarshalJSON (NewIntRequestID n)) = Inr (NewIntRequestID n)"
proof -
  have range: "- (2 ^ 63) \<le> sint n" "sint n < 2 ^ 63"
    using sint_range_size [of n] by (simp_all add: word_size)
  have "ParseInt64 (itoa (sint n)) = Some n"
    using ParseInt64_itoa [OF range] by simp
  then show ?thesis
    using itoa_not_null [of "sint n"]
    by (simp add: UnmarshalJSON_def MarshalJSON_def NewIntRequestID_def json_parse_itoa
        RequestID_of_value_def store_string_def store_int64_def)
qed

text \<open>\<open>utf8.ValidString\<close>.\<close>

function valid_utf8 :: "string \<Rightarrow> bool" where
  "valid_utf8 [] = True"
| "valid_utf8 (c # cs) =
     (rune_size (c # cs) \<noteq> 0 \<and> valid_utf8 (drop (rune_size (c # cs) - 1) cs))"
  by pat_completeness auto
termination
  by (relation "measure length") auto

lemma rune_size_le_length: "rune_size xs \<le> length xs"
  by (cases xs)
    (auto simp: rune_size_def two_bytes_def three_bytes_def four_bytes_def split: list.splits)

lemma two_bytes_prefix: "two_bytes c cs \<Longrightarrow> two_bytes c (take 1 cs @ ys)"
  by (cases cs) (auto simp: two_bytes_def)

lemma three_bytes_prefix: "three_bytes c cs \<Longrightarrow> three_bytes c (take 2 cs @ ys)"
  by (cases cs; cases "tl cs") (auto simp: three_bytes_def)

lemma four_bytes_prefix: "four_bytes c cs \<Longrightarrow> four_bytes c (take 3 cs @ ys)"
  by (cases cs; cases "tl cs"; cases "tl (tl cs)") (auto simp: four_bytes_def)

lemma rune_size_prefix:
  assumes "rune_size xs = n" and "n \<noteq> 0"
  shows "rune_size (take n xs @ ys) = n"
proof (cases xs)
  case Nil
  then show ?thesis using assms by (simp add: rune_size_def)
next
  case (Cons c cs)
  consider (one) "byte c < 0x80"
    | (two) "\<not> byte c < 0x80" "two_bytes c cs"
    | (three) "\<not> byte c < 0x80" "\<not> two_bytes c cs" "three_bytes c cs"
    | (four) "\<not> byte c < 0x80" "\<not> two_bytes c cs" "\<not> three_bytes c cs" "four_bytes c cs"
    | (bad) "\<not> byte c < 0x80" "\<not> two_bytes c cs" "\<not> three_bytes c cs" "\<not> four_bytes c cs"
    by blast
  then show ?thesis
  proof cases
    case one
    then show ?thesis using assms Cons by (auto simp: rune_size_def)
  next
    case two
    then have "n = 2" using assms Cons by (simp add: rune_size_def)
    then show ?thesis
      using two Cons two_bytes_prefix [of c cs ys] by (simp add: rune_size_def take_Cons')
  next
    case three
    then have n: "n = 3" using assms Cons by (simp add: rune_size_def)
    have "\<not> two_bytes c (take 2 cs @ ys)"
      using three(3) by (auto simp: two_bytes_def three_bytes_def in_range_def)
    then show ?thesis
      using three Cons n three_bytes_prefix [of c cs ys] by (simp add: rune_size_def take_Cons')
  next
    case four
    then have n: "n = 4" using assms Cons by (simp add: rune_size_def)
    have "\<not> two_bytes c (take 3 cs @ ys)" "\<not> three_bytes c (take 3 cs @ ys)"
      using four(4) by (auto simp: two_bytes_def three_bytes_def four_bytes_def in_range_def)
    then show ?thesis
      using four Cons n four_bytes_prefix [of c cs ys] by (simp add: rune_size_def take_Cons')
  next
    case bad
    then show ?thesis using assms Cons by (simp add: rune_size_def)
  qed
qed

lemma hexval_hexchar: "(d::nat) < 16 \<Longrightarrow> hexval (hexchar d) = Some d"
proof -
  assume "d < 16"
  then have "d = 0 \<or> d = 1 \<or> d = 2 \<or> d = 3 \<or> d = 4 \<or> d = 5 \<or> d = 6 \<or> d = 7
    \<or> d = 8 \<or> d = 9 \<or> d = 10 \<or> d = 11 \<or> d = 12 \<or> d = 13 \<or> d = 14 \<or> d = 15"
    by arith
  then show ?thesis
    by (elim disjE) (simp_all add: hexval_def hexchar_def in_range_def byte_def)
qed

lemma hexval_zero: "hexval (CHR ''0'') = Some 0"
  by (simp add: hexval_def in_range_def byte_def)

lemma hex4_escape:
  assumes "b < 128"
  shows "hex4 (CHR ''0'' # CHR ''0'' # hexchar (b div 16) # hexchar (b mod 16) # rest) = Some b"
proof -
  have "b div 16 < 16" "b mod 16 < 16" using assms by simp_all
  then show ?thesis
    by (simp add: hex4_def hexval_hexchar hexval_zero)
qed

lemma unquote_ascii:
  assumes "byte c < 0x80"
  shows "unquote_from (escape_ascii c @ rest) acc = unquote_from rest (acc @ [c])"
proof -
  consider (q) "c = bslash \<or> c = dquote"
    | (b) "c \<noteq> bslash" "c \<noteq> dquote" "byte c = 0x08"
    | (f) "c \<noteq> bslash" "c \<noteq> dquote" "byte c = 0x0C"
    | (n) "c \<noteq> bslash" "c \<noteq> dquote" "byte c = 0x0A"
    | (r) "c \<noteq> bslash" "c \<noteq> dquote" "byte c = 0x0D"
    | (t) "c \<noteq> bslash" "c \<noteq> dquote" "byte c = 0x09"
    | (u) "c \<noteq> bslash" "c \<noteq> dquote" "byte c \<noteq> 0x08" "byte c \<noteq> 0x0C" "byte c \<noteq> 0x0A"
          "byte c \<noteq> 0x0D" "byte c \<noteq> 0x09"
          "byte c < 0x20 \<or> c = CHR ''<'' \<or> c = CHR ''>'' \<or> c = CHR ''&''"
    | (plain) "c \<noteq> bslash" "c \<noteq> dquote" "\<not> byte c < 0x20" "c \<noteq> CHR ''<''" "c \<noteq> CHR ''>''"
          "c \<noteq> CHR ''&''"
    by fastforce
  then show ?thesis
  proof cases
    case q
    then show ?thesis
      by (auto simp: escape_ascii_def simple_escape_def bslash_def dquote_def)
  next
    case b
    then have "c = CHR 0x08" using byte_eq_iff [of c 8] by (simp add: char_of_eq_iff)
    then show ?thesis
      by (simp add: escape_ascii_def simple_escape_def bslash_def dquote_def byte_def)
  next
    case f
    then have "c = CHR 0x0C" using byte_eq_iff [of c 12] by (simp add: char_of_eq_iff)
    then show ?thesis
      by (simp add: escape_ascii_def simple_escape_def bslash_def dquote_def byte_def)
  next
    case n
    then have "c = CHR 0x0A" using byte_eq_iff [of c 10] by (simp add: char_of_eq_iff)
    then show ?thesis
      by (simp add: escape_ascii_def simple_escape_def bslash_def dquote_def byte_def)
  next
    case r
    then have "c = CHR 0x0D" using byte_eq_iff [of c 13] by (simp add: char_of_eq_iff)
    then show ?thesis
      by (simp add: escape_ascii_def simple_escape_def bslash_def dquote_def byte_def)
  next
    case t
    then have "c = CHR 0x09" using byte_eq_iff [of c 9] by (simp add: char_of_eq_iff)
    then show ?thesis
      by (simp add: escape_ascii_def simple_escape_def bslash_def dquote_def byte_def)
  next
    case u
    have esc: "escape_ascii c =
        [bslash, CHR ''u'', CHR ''0'', CHR ''0'', hexchar (byte c div 16), hexchar (byte c mod 16)]"
      using u by (auto simp: escape_ascii_def)
    have h: "hex4 (CHR ''0'' # CHR ''0'' # hexchar (byte c div 16) # hexchar (byte c mod 16) # rest) = Some (byte c)"
      using assms by (intro hex4_escape) simp
    have enc: "EncodeRune (byte c) = [c]"
      using assms by (simp add: EncodeRune_def char_of_byte)
    show ?thesis
      using h enc assms by (simp add: esc bslash_def dquote_def)
  next
    case plain
    then show ?thesis
      using assms by (simp add: escape_ascii_def)
  qed
qed

lemma hex4_2028: "hex4 (CHR ''2'' # CHR ''0'' # CHR ''2'' # CHR ''8'' # rest) = Some 0x2028"
  by (simp add: hex4_def hexval_def in_range_def byte_def)

lemma hex4_2029: "hex4 (CHR ''2'' # CHR ''0'' # CHR ''2'' # CHR ''9'' # rest) = Some 0x2029"
  by (simp add: hex4_def hexval_def in_range_def byte_def)

lemma EncodeRune_2028: "EncodeRune 0x2028 = [CHR 0xE2, CHR 0x80, CHR 0xA8]"
  by (simp add: EncodeRune_def char_of_eq_iff)

lemma EncodeRune_2029: "EncodeRune 0x2029 = [CHR 0xE2, CHR 0x80, CHR 0xA9]"
  by (simp add: EncodeRune_def char_of_eq_iff)

lemma unquote_multibyte:
  assumes "\<not> byte c < 0x80" and "rune_size (c # cs) = n" and "n \<noteq> 0"
  shows "unquote_from (take n (c # cs) @ rest) acc = unquote_from rest (acc @ take n (c # cs))"
proof -
  have n: "n \<le> length (c # cs)" using assms(2) rune_size_le_length by metis
  obtain m where m: "n = Suc m" using assms(3) by (cases n) auto
  have c: "c \<noteq> dquote" "c \<noteq> bslash" "\<not> byte c < 0x20"
    using assms(1) by (auto simp: dquote_def bslash_def byte_def)
  have rs: "rune_size (c # (take m cs @ rest)) = n"
    using rune_size_prefix [OF assms(2,3), of rest] m by simp
  have len: "m \<le> length cs" using n m by simp
  show ?thesis
    using c assms(1) rs m len by simp
qed

lemma unquote_appendString:
  "valid_utf8 s \<Longrightarrow> unquote_from (appendString s @ dquote # rest) acc = Some (acc @ s, rest)"
proof (induction s arbitrary: acc rule: appendString.induct)
  case 1
  then show ?case by simp
next
  case (2 c cs)
  show ?case
  proof (cases "byte c < 0x80")
    case True
    then have "valid_utf8 cs" using "2.prems" by (simp add: rune_size_def)
    then show ?thesis
      using True "2.IH"(1) by (simp add: unquote_ascii)
  next
    case False
    let ?n = "rune_size (c # cs)"
    have n0: "?n \<noteq> 0" and v: "valid_utf8 (drop (?n - 1) cs)"
      using "2.prems" by simp_all
    have c: "c \<noteq> dquote" "c \<noteq> bslash"
      using False by (auto simp: dquote_def bslash_def byte_def)
    consider (ls) "take 3 (c # cs) = [CHR 0xE2, CHR 0x80, CHR 0xA8]"
      | (ps) "take 3 (c # cs) \<noteq> [CHR 0xE2, CHR 0x80, CHR 0xA8]"
             "take 3 (c # cs) = [CHR 0xE2, CHR 0x80, CHR 0xA9]"
      | (other) "take 3 (c # cs) \<noteq> [CHR 0xE2, CHR 0x80, CHR 0xA8]"
             "take 3 (c # cs) \<noteq> [CHR 0xE2, CHR 0x80, CHR 0xA9]"
      by blast
    then show ?thesis
    proof cases
      case ls
      then obtain r where cs: "c = CHR 0xE2" "cs = CHR 0x80 # CHR 0xA8 # r"
        by (cases cs; cases "tl cs") auto
      then have "?n = 3"
        by (simp add: rune_size_def two_bytes_def three_bytes_def byte_def in_range_def)
      then have "valid_utf8 r" using v cs by simp
      then have ih: "unquote_from (appendString r @ dquote # rest) (acc @ [CHR 0xE2, CHR 0x80, CHR 0xA8])
                       = Some ((acc @ [CHR 0xE2, CHR 0x80, CHR 0xA8]) @ r, rest)"
        using "2.IH"(3) [OF False n0 ls] cs by simp
      show ?thesis
        using False n0 ls ih cs
        by (simp add: bslash_def dquote_def hex4_2028 EncodeRune_2028)
    next
      case ps
      then obtain r where cs: "c = CHR 0xE2" "cs = CHR 0x80 # CHR 0xA9 # r"
        by (cases cs; cases "tl cs") auto
      then have "?n = 3"
        by (simp add: rune_size_def two_bytes_def three_bytes_def byte_def in_range_def)
      then have "valid_utf8 r" using v cs by simp
      then have ih: "unquote_from (appendString r @ dquote # rest) (acc @ [CHR 0xE2, CHR 0x80, CHR 0xA9])
                       = Some ((acc @ [CHR 0xE2, CHR 0x80, CHR 0xA9]) @ r, rest)"
        using "2.IH"(4) [OF False n0 ps] cs by simp
      show ?thesis
        using False n0 ps ih cs
        by (simp add: bslash_def dquote_def hex4_2029 EncodeRune_2029)
    next
      case other
      have ih: "unquote_from (appendString (drop (?n - 1) cs) @ dquote # rest) (acc @ take ?n (c # cs))
                  = Some ((acc @ take ?n (c # cs)) @ drop (?n - 1) cs, rest)"
        using "2.IH"(5) [OF False n0 other v] .
      have app: "appendString (c # cs) = take ?n (c # cs) @ appendString (drop (?n - 1) cs)"
        using False n0 other by (simp only: appendString.simps if_False simp_thms)
      have len: "?n \<le> length (c # cs)" by (rule rune_size_le_length)
      have tk: "take ?n (c # cs) @ drop (?n - 1) cs = c # cs"
        using n0 len by (cases ?n) simp_all
      have "unquote_from (appendString (c # cs) @ dquote # rest) acc
              = unquote_from (take ?n (c # cs) @ (appendString (drop (?n - 1) cs) @ dquote # rest)) acc"
        by (simp only: app append_assoc)
      also have "\<dots> = unquote_from (appendString (drop (?n - 1) cs) @ dquote # rest) (acc @ take ?n (c # cs))"
        by (rule unquote_multibyte [OF False refl n0])
      also have "\<dots> = Some ((acc @ take ?n (c # cs)) @ drop (?n - 1) cs, rest)"
        by (rule ih)
      also have "(acc @ take ?n (c # cs)) @ drop (?n - 1) cs = acc @ c # cs"
        using tk by simp
      finally show ?thesis .
    qed
  qed
qed

lemma tokenize_quote: "valid_utf8 s \<Longrightarrow> tokenize (quote s) = Some [TString s]"
  using unquote_appendString [of s "[]" "[]"]
  by (simp add: quote_def dquote_def is_json_space_def)

lemma json_parse_quote: "valid_utf8 s \<Longrightarrow> json_parse (quote s) = Some (JStr s)"
  by (simp add: json_parse_def tokenize_quote parse_step_def begin_value_def)

lemma roundtrip_string:
  assumes "valid_utf8 s"
  shows "UnmarshalJSON (MarshalJSON (NewStringRequestID s)) = Inr (NewStringRequestID s)"
proof -
  have "quote s \<noteq> []" "quote s \<noteq> ''null''"
    by (simp_all add: quote_def dquote_def)
  then show ?thesis
    using assms
    by (simp add: UnmarshalJSON_def MarshalJSON_def NewStringRequestID_def json_parse_quote
        RequestID_of_value_def store_string_def)
qed

lemma itoa_inj:
  assumes "itoa (sint (n :: int64)) = itoa (sint (m :: int64))"
  shows "n = m"
proof -
  have "- (2 ^ 63) \<le> sint n \<and> sint n < 2 ^ 63" "- (2 ^ 63) \<le> sint m \<and> sint m < 2 ^ 63"
    using sint_range_size [of n] sint_range_size [of m] by (simp_all add: word_size)
  then have "ParseInt64 (itoa (sint n)) = Some n" "ParseInt64 (itoa (sint m)) = Some m"
    using ParseInt64_itoa [of "sint n"] ParseInt64_itoa [of "sint m"] by simp_all
  then show ?thesis using assms by (metis option.inject)
qed

text \<open>
  C6. Encoding and then decoding an integer id gives the same integer
  id, for every 64-bit value; encoding and then decoding a string id gives the same
  string id when the string is well-formed UTF-8. The key of a string id is never the
  key of an integer id, and within each form different ids have different keys.
\<close>

theorem RequestID_roundtrip:
  "UnmarshalJSON (MarshalJSON (NewIntRequestID n)) = Inr (NewIntRequestID n)
   \<and> (valid_utf8 s \<longrightarrow> UnmarshalJSON (MarshalJSON (NewStringRequestID s)) = Inr (NewStringRequestID s))
   \<and> Key (NewStringRequestID s) \<noteq> Key (NewIntRequestID n)
   \<and> (Key (NewStringRequestID s) = Key (NewStringRequestID s') \<longleftrightarrow> s = s')
   \<and> (Key (NewIntRequestID n) = Key (NewIntRequestID n') \<longleftrightarrow> n = n')"
proof (intro conjI impI)
  show "UnmarshalJSON (MarshalJSON (NewIntRequestID n)) = Inr (NewIntRequestID n)"
    by (rule roundtrip_int)
  show "UnmarshalJSON (MarshalJSON (NewStringRequestID s)) = Inr (NewStringRequestID s)"
    if "valid_utf8 s" using that by (rule roundtrip_string)
  show "Key (NewStringRequestID s) \<noteq> Key (NewIntRequestID n)"
    by (simp add: Key_def NewStringRequestID_def NewIntRequestID_def)
  show "Key (NewStringRequestID s) = Key (NewStringRequestID s') \<longleftrightarrow> s = s'"
    by (simp add: Key_def NewStringRequestID_def)
  show "Key (NewIntRequestID n) = Key (NewIntRequestID n') \<longleftrightarrow> n = n'"
    using itoa_inj [of n n'] by (auto simp: Key_def NewIntRequestID_def)
qed

theorem RequestID_roundtrip_counterexample:
  "UnmarshalJSON (MarshalJSON (NewStringRequestID [CHR 0xFF]))
     = Inr (NewStringRequestID [CHR 0xEF, CHR 0xBF, CHR 0xBD])
   \<and> NewStringRequestID [CHR 0xFF] \<noteq> NewStringRequestID [CHR 0xEF, CHR 0xBF, CHR 0xBD]"
  by (simp add: json_eval wire_eval)

theorem RequestID_roundtrip_witness:
  "UnmarshalJSON (MarshalJSON (NewIntRequestID 42)) = Inr (NewIntRequestID 42)
   \<and> UnmarshalJSON (MarshalJSON (NewStringRequestID ''abc'')) = Inr (NewStringRequestID ''abc'')
   \<and> UnmarshalJSON ''\"1\"'' = Inr (NewStringRequestID ''1'')
   \<and> UnmarshalJSON ''1'' = Inr (NewIntRequestID 1)
   \<and> Key (NewStringRequestID ''1'') = ''s:1'' \<and> Key (NewIntRequestID 1) = ''i:1''
   \<and> Key (NewStringRequestID ''1'') \<noteq> Key (NewIntRequestID 1)"
proof -
  have v: "valid_utf8 ''abc''"
    by (simp add: json_eval)
  have d: "UnmarshalJSON ''\"1\"'' = Inr (NewStringRequestID ''1'')"
     "UnmarshalJSON ''1'' = Inr (NewIntRequestID 1)"
     "Key (NewStringRequestID ''1'') = ''s:1''" "Key (NewIntRequestID 1) = ''i:1''"
    by (simp_all add: json_eval wire_eval)
  show ?thesis
    using v d RequestID_roundtrip [of 42 "''abc''" "''abc''" 42] RequestID_roundtrip [of 1 "''1''" "''1''" 1]
    by simp
qed

section \<open>Classifying a line\<close>



















section \<open>Responses without a pending call\<close>

lemma delete_absent: "map_of al k = None \<Longrightarrow> AList.delete k al = al"
  by (simp add: map_of_eq_None_iff)

text \<open>
  C5. When a response or an error message arrives whose request key has no entry in
  the pending table, handleResponse and handleError return without any effect: the
  client, with its pending table, channels and subscriptions, is unchanged, and the
  read loop goes on to the next line having only advanced the transport.
\<close>

theorem late_response_dropped:
  assumes "m = MsgResponse r \<and> k = Key (resp_ID r) \<or> m = MsgError e \<and> k = Key (err_ID e)"
    and "map_of (pending c) k = None"
  shows "(m = MsgResponse r \<longrightarrow> handleResponse c r = Returns c)
       \<and> (m = MsgError e \<longrightarrow> handleError c e = Returns c)
       \<and> (\<forall>T t' line. ReadLine T (transport c) = Returns (t', line, None) \<and> TrimSpace line \<noteq> []
              \<and> parseMessage line = Inr m
            \<longrightarrow> readLoop_iteration T c = Returns (c\<lparr>transport := t'\<rparr>, Continue))"
  using assms
  by (auto simp: handleResponse_def handleError_def readLoop_iteration_def continue_def delete_absent)

definition late_client :: "ReplayTransport Client" where
  "late_client =
     NewClient (NewReplayTransport [\<lparr>Direction = ''read'', Line = ''{\"id\":7,\"result\":{}}''\<rparr>]) None"

theorem late_response_dropped_witness:
  "handleResponse late_client \<lparr>resp_ID = NewIntRequestID 7, resp_Result = Some (JObj [])\<rparr>
     = Returns late_client
   \<and> readLoop_iteration (replay Some) late_client
     = Returns (late_client\<lparr>transport := (transport late_client)\<lparr>index := 1\<rparr>\<rparr>, Continue)"
proof -
  let ?r = "\<lparr>resp_ID = NewIntRequestID 7, resp_Result = Some (JObj [])\<rparr>"
  have absent: "map_of (pending late_client) (Key (resp_ID ?r)) = None"
    by (simp add: late_client_def NewClient_def)
  have rd: "ReadLine (replay Some) (transport late_client)
      = Returns ((transport late_client)\<lparr>index := 1\<rparr>, ''{\"id\":7,\"result\":{}}'', None)"
    by (simp add: late_client_def client_eval)
  have ne: "TrimSpace ''{\"id\":7,\"result\":{}}'' \<noteq> []"
    by (simp add: json_eval norm_eval)
  have pm: "parseMessage ''{\"id\":7,\"result\":{}}'' = Inr (MsgResponse ?r)"
    by (simp add: json_eval wire_eval)
  show ?thesis
    using absent rd ne pm
      late_response_dropped [of "MsgResponse ?r" ?r "Key (resp_ID ?r)" undefined late_client]
    by simp
qed

section \<open>Params that cannot be serialized\<close>

text \<open>
  C4. When the params cannot be serialized, Call returns that error from its first
  step, on an open client whose next request key is not in use: nothing is written
  to the transport, and the pending table after the return is the table before the
  call.
\<close>

theorem serialization_failure:
  assumes "Marshal params = Inl e" and "\<not> cdone c"
    and "map_of (pending c) (Key (NewIntRequestID (nextID c + 1))) = None"
  shows "\<exists>c'. Call_step T ctx out c (Registering method params) = [(c', Returned (Inl e))]
            \<and> transport c' = transport c \<and> pending c' = pending c"
  using assms
  by (simp add: Call_step_def Call_register_def ensureOpen_def nextRequestID_def make_chan_def
      BuildClientRequest_def deletePending_def delete_update_same delete_absent)

theorem serialization_failure_witness:
  "\<exists>c'. Call_step (replay Some) None (None :: (json \<Rightarrow> error + json) option)
          (NewClient (NewReplayTransport []) None) (Registering ''ping'' (Unmarshalable ''func()''))
        = [(c', Returned (Inl (ErrMarshal ''func()'')))]
      \<and> transport c' = NewReplayTransport [] \<and> pending c' = []"
proof -
  let ?c = "NewClient (NewReplayTransport []) None"
  have "Marshal (Unmarshalable ''func()'') = Inl (ErrMarshal ''func()'')"
    by (simp add: Marshal_def)
  moreover have "\<not> cdone ?c" "map_of (pending ?c) (Key (NewIntRequestID (nextID ?c + 1))) = None"
    "transport ?c = NewReplayTransport []" "pending ?c = []"
    by (simp_all add: NewClient_def)
  ultimately show ?thesis
    using serialization_failure [of "Unmarshalable ''func()''" "ErrMarshal ''func()''" ?c
        "replay Some" None "None :: (json \<Rightarrow> error + json) option" "''ping''"]
    by simp
qed

section \<open>Server requests without a handler\<close>

text \<open>
  C8. With no server-request handler installed, handleServerRequest makes exactly
  one WriteLine call, whose line is the JSON-RPC error reply with the id of the
  request, the code -32601 and the message "no handler configured"; the result of
  the write is discarded.
\<close>

theorem no_handler_reply:
  assumes "handler c = None"
  shows "handleServerRequest T c req =
           (case WriteLine T (transport c)
                   (''{'' @ quote ''id'' @ '':'' @ MarshalJSON (req_ID req) @ '','' @ quote ''error'' @ '':''
                    @ ''{'' @ quote ''code'' @ '':'' @ ''-32601'' @ '','' @ quote ''message'' @ '':''
                    @ quote ''no handler configured'' @ ''}'' @ ''}'') of
              Blocks \<Rightarrow> Blocks
            | Returns (t', _) \<Rightarrow> Returns (c\<lparr>transport := t'\<rparr>))"
proof -
  have "itoa (sint (- 32601 :: int64)) = ''-32601''"
    by (simp add: itoa_def digits.simps char_of_eq_iff)
  then show ?thesis
    using assms
    by (simp add: handleServerRequest_def replyError_def send_def marshal_payload_def
        marshal_error_def marshal_error_detail_def omitempty_def discard_error_def
        split: blocking.splits prod.splits)
qed

definition approval_client :: "ReplayTransport Client" where
  "approval_client =
     NewClient (NewReplayTransport
       [\<lparr>Direction = ''write'',
         Line = ''{\"id\":9,\"error\":{\"code\":-32601,\"message\":\"no handler configured\"}}''\<rparr>]) None"

theorem no_handler_reply_witness:
  "handleServerRequest (replay Some) approval_client
     \<lparr>req_ID = NewIntRequestID 9, req_Method = ''applyPatchApproval'', req_Params = None\<rparr>
   = Returns (approval_client\<lparr>transport := (transport approval_client)\<lparr>index := 1\<rparr>\<rparr>)"
proof -
  have h: "handler approval_client = None"
    by (simp add: approval_client_def NewClient_def)
  have w: "WriteLine (replay Some) (transport approval_client)
      (''{'' @ quote ''id'' @ '':'' @ MarshalJSON (NewIntRequestID 9) @ '','' @ quote ''error'' @ '':''
        @ ''{'' @ quote ''code'' @ '':'' @ ''-32601'' @ '','' @ quote ''message'' @ '':''
        @ quote ''no handler configured'' @ ''}'' @ ''}'')
      = Returns ((transport approval_client)\<lparr>index := 1\<rparr>, None)"
    by (simp add: approval_client_def client_eval json_eval wire_eval)
  show ?thesis
    using w no_handler_reply [OF h, of "replay Some"
        "\<lparr>req_ID = NewIntRequestID 9, req_Method = ''applyPatchApproval'', req_Params = None\<rparr>"]
    by simp
qed

section \<open>Error responses\<close>

text \<open>
  C3. When the peer answers a pending Call with a JSON-RPC error
  message, the Call returns a ResponseError that carries the request id and the
  peer's error object (code, message, data) unchanged; the text of that error is
  "json-rpc error CODE: MESSAGE".
\<close>

theorem error_response_delivered:
  assumes "map_of (pending c) (Key (err_ID e)) = Some ch" and "chans c ch = []" and "\<not> cdone c"
  shows "handleError c e =
           Returns (c\<lparr>pending := AList.delete (Key (err_ID e)) (pending c),
                      chans := (chans c)(ch := [\<lparr>res_result = None,
                         res_err = Some (ErrResponse \<lparr>ID = err_ID e, Detail = err_Error e\<rparr>)\<rparr>])\<rparr>)
       \<and> Call_select
            (c\<lparr>pending := AList.delete (Key (err_ID e)) (pending c),
               chans := (chans c)(ch := [\<lparr>res_result = None,
                         res_err = Some (ErrResponse \<lparr>ID = err_ID e, Detail = err_Error e\<rparr>)\<rparr>])\<rparr>)
            None i ch out
           = [(c\<lparr>pending := AList.delete (Key (err_ID e)) (pending c), chans := (chans c)(ch := [])\<rparr>,
               Inl (ErrResponse \<lparr>ID = err_ID e, Detail = err_Error e\<rparr>))]
       \<and> ResponseError_Error \<lparr>ID = err_ID e, Detail = err_Error e\<rparr>
           = ''json-rpc error '' @ itoa (sint (Code (err_Error e))) @ '': '' @ Message (err_Error e)"
  using assms
  by (simp add: handleError_def chan_send_def Call_select_def ResponseError_Error_def)

definition boom_client :: "ReplayTransport Client" where
  "boom_client =
     (NewClient (NewReplayTransport []) None)
       \<lparr>nextID := 1, pending := [(''i:1'', 0)], chan_count := 1\<rparr>"

definition boom :: JSONRPCError where
  "boom = \<lparr>err_ID = NewIntRequestID 1, err_Error = \<lparr>Code = - 1, Message = ''boom'', Data = None\<rparr>\<rparr>"

theorem error_message_counterexample:
  "parseMessage ''{\"id\":1,\"error\":{\"code\":-1,\"message\":\"boom\"}}'' = Inr (MsgError boom)
   \<and> (case handleError boom_client boom of
        Returns c \<Rightarrow> map snd (Call_select c None (NewIntRequestID 1) 0 (None :: (json \<Rightarrow> error + json) option))
      | Blocks \<Rightarrow> [])
      = [Inl (ErrResponse \<lparr>ID = NewIntRequestID 1, Detail = err_Error boom\<rparr>)]
   \<and> ResponseError_Error \<lparr>ID = NewIntRequestID 1, Detail = err_Error boom\<rparr> = ''json-rpc error -1: boom''
   \<and> ResponseError_Error \<lparr>ID = NewIntRequestID 1, Detail = err_Error boom\<rparr> \<noteq> Message (err_Error boom)"
  by (simp add: boom_def boom_client_def json_eval wire_eval client_eval)

theorem error_response_delivered_witness:
  "handleError boom_client boom =
     Returns (boom_client\<lparr>pending := AList.delete (Key (err_ID boom)) (pending boom_client),
                chans := (chans boom_client)(0 := [\<lparr>res_result = None,
                   res_err = Some (ErrResponse \<lparr>ID = err_ID boom, Detail = err_Error boom\<rparr>)\<rparr>])\<rparr>)
   \<and> ResponseError_Error \<lparr>ID = err_ID boom, Detail = err_Error boom\<rparr> = ''json-rpc error -1: boom''"
proof -
  have "map_of (pending boom_client) (Key (err_ID boom)) = Some 0"
    by (simp add: boom_def boom_client_def wire_eval client_eval char_of_eq_iff)
  moreover have "chans boom_client 0 = []" "\<not> cdone boom_client"
    by (simp_all add: boom_client_def NewClient_def)
  moreover have "itoa (sint (Code (err_Error boom))) = ''-1''"
    by (simp add: boom_def wire_eval char_of_eq_iff)
  ultimately show ?thesis
    using error_response_delivered
      [of boom_client boom 0 "NewIntRequestID 1" "None :: (json \<Rightarrow> error + json) option"]
    by (simp add: boom_def)
qed

section \<open>Termination\<close>

text \<open>
  The pending table is in order when its channels are distinct, allocated and empty.
\<close>

definition pending_ready :: "'t Client \<Rightarrow> bool" where
  "pending_ready c \<longleftrightarrow>
     distinct (map snd (pending c))
     \<and> (\<forall>ch \<in> snd ` set (pending c). chans c ch = [] \<and> ch < chan_count c)"

lemma send_each_empty:
  "distinct chs \<Longrightarrow> \<forall>ch \<in> set chs. chans c ch = [] \<Longrightarrow>
   send_each c chs r = Returns (c\<lparr>chans := (\<lambda>ch. if ch \<in> set chs then [r] else chans c ch)\<rparr>)"
proof (induction chs arbitrary: c)
  case Nil
  then show ?case by simp
next
  case (Cons ch chs)
  let ?c' = "c\<lparr>chans := (chans c)(ch := [r])\<rparr>"
  have step: "chan_send c ch r = Returns ?c'"
    using Cons.prems by (simp add: chan_send_def)
  have "send_each ?c' chs r =
          Returns (?c'\<lparr>chans := (\<lambda>x. if x \<in> set chs then [r] else chans ?c' x)\<rparr>)"
    using Cons.prems by (intro Cons.IH) auto
  moreover have "(\<lambda>x. if x \<in> set chs then [r] else chans ?c' x)
                   = (\<lambda>x. if x \<in> set (ch # chs) then [r] else chans c x)"
    by (rule ext) simp
  ultimately show ?case
    using step by simp
qed

lemma sub_close_idem: "sub_close (sub_close s) = sub_close s"
  by (simp add: sub_close_def)

lemma close_each_eq:
  "close_each c as =
     c\<lparr>subscriptions := (\<lambda>a. if a \<in> set as then sub_close (subscriptions c a) else subscriptions c a)\<rparr>"
proof (induction as arbitrary: c)
  case Nil
  then show ?case by (simp add: close_each_def)
next
  case (Cons a as)
  let ?c' = "c\<lparr>subscriptions := (subscriptions c)(a := sub_close (subscriptions c a))\<rparr>"
  have "close_each c (a # as) = close_each ?c' as"
    by (simp add: close_each_def)
  also have "\<dots> = ?c'\<lparr>subscriptions :=
      (\<lambda>x. if x \<in> set as then sub_close (subscriptions ?c' x) else subscriptions ?c' x)\<rparr>"
    by (rule Cons.IH)
  also have "(\<lambda>x. if x \<in> set as then sub_close (subscriptions ?c' x) else subscriptions ?c' x)
      = (\<lambda>x. if x \<in> set (a # as) then sub_close (subscriptions c x) else subscriptions c x)"
    by (rule ext) (simp add: sub_close_idem)
  finally show ?case by simp
qed

definition terminated :: "'t Client \<Rightarrow> error \<Rightarrow> 't Client" where
  "terminated c e =
     c\<lparr>doneOnce := True, err := Some e, cdone := True, pending := [], subs := [],
       chans := (\<lambda>ch. if ch \<in> snd ` set (pending c)
                       then [\<lparr>res_result = None, res_err = Some e\<rparr>] else chans c ch),
       subscriptions := (\<lambda>a. if a \<in> snd ` set (subs c)
                               then sub_close (subscriptions c a) else subscriptions c a)\<rparr>"

lemma finish_first:
  assumes "pending_ready c" and "\<not> doneOnce c"
  shows "finish c e = Returns (terminated c e)"
proof -
  let ?c1 = "c\<lparr>doneOnce := True, err := Some e, cdone := True\<rparr>"
  let ?r = "\<lparr>res_result = None, res_err = Some e\<rparr>"
  have "send_each ?c1 (map snd (pending c)) ?r =
          Returns (?c1\<lparr>chans := (\<lambda>ch. if ch \<in> set (map snd (pending c)) then [?r] else chans ?c1 ch)\<rparr>)"
    using assms(1) by (intro send_each_empty) (auto simp: pending_ready_def)
  then show ?thesis
    using assms(2) by (simp add: finish_def close_each_eq terminated_def cong: if_cong)
qed

lemma finish_again: "doneOnce c \<Longrightarrow> finish c e = Returns c"
  by (simp add: finish_def)

text \<open>
  A new client's pending table is in order, and every move of a caller or of the read
  loop keeps it so.
\<close>

lemma pending_ready_transport: "pending_ready (c\<lparr>transport := t\<rparr>) = pending_ready c"
  by (simp add: pending_ready_def)

lemma delete_values: "set (AList.delete k al) \<subseteq> set al"
  by (auto simp: AList.delete_eq)

lemma delete_distinct_values: "distinct (map snd al) \<Longrightarrow> distinct (map snd (AList.delete k al))"
  by (simp add: AList.delete_eq distinct_map_filter)

lemma pending_ready_delete:
  "pending_ready c \<Longrightarrow> pending_ready (c\<lparr>pending := AList.delete k (pending c)\<rparr>)"
  using delete_values [of k "pending c"]
  by (auto simp: pending_ready_def delete_distinct_values)

lemma update_values: "snd ` set (AList.update k v al) \<subseteq> insert v (snd ` set al)"
  by (induction al) auto

lemma update_distinct_values:
  "distinct (map snd al) \<Longrightarrow> v \<notin> snd ` set al \<Longrightarrow> distinct (map snd (AList.update k v al))"
proof (induction al)
  case Nil
  then show ?case by simp
next
  case (Cons p al)
  show ?case
  proof (cases "fst p = k")
    case True
    then show ?thesis using Cons.prems by auto
  next
    case False
    have "snd p \<notin> snd ` set (AList.update k v al)"
      using update_values [of k v al] Cons.prems by auto
    then show ?thesis
      using False Cons by auto
  qed
qed

lemma pending_ready_register:
  assumes "pending_ready c"
  shows "pending_ready
           (c\<lparr>chans := (chans c)(chan_count c := []), chan_count := chan_count c + 1,
              pending := AList.update k (chan_count c) (pending c)\<rparr>)"
proof -
  have fresh: "chan_count c \<notin> snd ` set (pending c)"
    using assms by (auto simp: pending_ready_def)
  have "distinct (map snd (AList.update k (chan_count c) (pending c)))"
    using assms fresh by (intro update_distinct_values) (simp_all add: pending_ready_def)
  moreover have "\<forall>ch \<in> snd ` set (AList.update k (chan_count c) (pending c)).
      ((chans c)(chan_count c := [])) ch = [] \<and> ch < chan_count c + 1"
  proof
    fix ch
    assume "ch \<in> snd ` set (AList.update k (chan_count c) (pending c))"
    then have "ch = chan_count c \<or> ch \<in> snd ` set (pending c)"
      using update_values [of k "chan_count c" "pending c"] by blast
    then show "((chans c)(chan_count c := [])) ch = [] \<and> ch < chan_count c + 1"
      using assms by (auto simp: pending_ready_def)
  qed
  ultimately show ?thesis
    by (simp add: pending_ready_def)
qed

lemma pending_ready_deliver:
  assumes r: "pending_ready c" and m: "map_of (pending c) k = Some ch"
  shows "chan_send (c\<lparr>pending := AList.delete k (pending c)\<rparr>) ch x
           = Returns (c\<lparr>pending := AList.delete k (pending c), chans := (chans c)(ch := [x])\<rparr>)
       \<and> pending_ready (c\<lparr>pending := AList.delete k (pending c), chans := (chans c)(ch := [x])\<rparr>)"
proof -
  have mem: "(k, ch) \<in> set (pending c)"
    using m by (rule map_of_SomeD)
  then have empty: "chans c ch = []"
    using r by (force simp: pending_ready_def)
  have inj: "inj_on snd (set (pending c))"
    using r by (simp add: pending_ready_def distinct_map)
  have gone: "ch \<notin> snd ` set (AList.delete k (pending c))"
  proof
    assume "ch \<in> snd ` set (AList.delete k (pending c))"
    then obtain k' where k': "(k', ch) \<in> set (pending c)" "k' \<noteq> k"
      by (auto simp: AList.delete_eq)
    from inj_onD [OF inj _ k'(1) mem] k'(2) show False by simp
  qed
  have "pending_ready (c\<lparr>pending := AList.delete k (pending c)\<rparr>)"
    using r by (rule pending_ready_delete)
  then have "pending_ready (c\<lparr>pending := AList.delete k (pending c), chans := (chans c)(ch := [x])\<rparr>)"
    using gone by (auto simp: pending_ready_def)
  then show ?thesis
    using empty by (simp add: chan_send_def)
qed

lemma pending_ready_handleResponse:
  assumes "pending_ready c" and "handleResponse c r = Returns c'"
  shows "pending_ready c'"
proof (cases "map_of (pending c) (Key (resp_ID r))")
  case None
  then show ?thesis
    using assms pending_ready_delete [of c "Key (resp_ID r)"] by (auto simp: handleResponse_def)
next
  case (Some ch)
  then show ?thesis
    using assms(2) pending_ready_deliver [OF assms(1) Some] by (auto simp: handleResponse_def)
qed

lemma pending_ready_handleError:
  assumes "pending_ready c" and "handleError c r = Returns c'"
  shows "pending_ready c'"
proof (cases "map_of (pending c) (Key (err_ID r))")
  case None
  then show ?thesis
    using assms pending_ready_delete [of c "Key (err_ID r)"] by (auto simp: handleError_def)
next
  case (Some ch)
  then show ?thesis
    using assms(2) pending_ready_deliver [OF assms(1) Some] by (auto simp: handleError_def)
qed

lemma publish_each_tables:
  "pending (foldl (\<lambda>c' a. c'\<lparr>subscriptions := (subscriptions c')(a := publish (subscriptions c' a) note)\<rparr>) c as) = pending c
   \<and> chans (foldl (\<lambda>c' a. c'\<lparr>subscriptions := (subscriptions c')(a := publish (subscriptions c' a) note)\<rparr>) c as) = chans c
   \<and> chan_count (foldl (\<lambda>c' a. c'\<lparr>subscriptions := (subscriptions c')(a := publish (subscriptions c' a) note)\<rparr>) c as) = chan_count c"
  by (induction as arbitrary: c) simp_all

lemma pending_ready_handleNotification:
  "pending_ready (handleNotification c n) = pending_ready c"
proof -
  have "pending (handleNotification c n) = pending c \<and> chans (handleNotification c n) = chans c
      \<and> chan_count (handleNotification c n) = chan_count c"
    unfolding handleNotification_def by (rule publish_each_tables)
  then show ?thesis by (simp add: pending_ready_def)
qed

lemma pending_ready_send:
  assumes "pending_ready c" and "send T c p = Returns (c', e)"
  shows "pending_ready c'"
  using assms
  by (auto simp: send_def pending_ready_transport split: sum.splits blocking.splits)

lemma pending_ready_handleServerRequest:
  assumes "pending_ready c" and "handleServerRequest T c req = Returns c'"
  shows "pending_ready c'"
proof -
  have "(\<exists>p e. send T c p = Returns (c', e)) \<or> c' = c"
    using assms(2)
    by (auto simp: handleServerRequest_def replyError_def replyResult_def discard_error_def
        split: option.splits sum.splits blocking.splits)
  then show ?thesis
    using assms(1) pending_ready_send by blast
qed

lemma pending_ready_finish:
  assumes "pending_ready c" and "finish c e = Returns c'"
  shows "pending_ready c'"
proof (cases "doneOnce c")
  case True
  then show ?thesis using assms by (simp add: finish_def)
next
  case False
  then have "c' = terminated c e"
    using assms finish_first [of c e] by simp
  then show ?thesis by (simp add: terminated_def pending_ready_def)
qed

lemma pending_ready_readLoop:
  assumes r: "pending_ready c" and it: "readLoop_iteration T c = Returns (c', lp)"
  shows "pending_ready c'"
proof -
  obtain t' line e where rd: "ReadLine T (transport c) = Returns (t', line, e)"
    using it by (auto simp: readLoop_iteration_def split: blocking.splits)
  let ?c = "c\<lparr>transport := t'\<rparr>"
  have r': "pending_ready ?c"
    using r by (simp add: pending_ready_transport)
  show ?thesis
  proof (cases e)
    case (Some x)
    then have "\<exists>c1. finish ?c x = Returns c1 \<and> c' = c1"
      using it rd by (auto simp: readLoop_iteration_def split: blocking.splits)
    then show ?thesis using pending_ready_finish [OF r'] by blast
  next
    case None
    show ?thesis
    proof (cases "TrimSpace line = []")
      case True
      then show ?thesis using it rd None r' by (simp add: readLoop_iteration_def)
    next
      case False
      show ?thesis
      proof (cases "parseMessage line")
        case (Inl x)
        then show ?thesis using it rd None False r' by (simp add: readLoop_iteration_def)
      next
        case (Inr m)
        show ?thesis
        proof (cases m)
          case (MsgResponse x)
          then have "handleResponse ?c x = Returns c'"
            using it rd None False Inr
            by (auto simp: readLoop_iteration_def continue_def split: blocking.splits)
          then show ?thesis using pending_ready_handleResponse [OF r'] by blast
        next
          case (MsgError x)
          then have "handleError ?c x = Returns c'"
            using it rd None False Inr
            by (auto simp: readLoop_iteration_def continue_def split: blocking.splits)
          then show ?thesis using pending_ready_handleError [OF r'] by blast
        next
          case (MsgRequest x)
          then have "handleServerRequest T ?c x = Returns c'"
            using it rd None False Inr
            by (auto simp: readLoop_iteration_def continue_def split: blocking.splits)
          then show ?thesis using pending_ready_handleServerRequest [OF r'] by blast
        next
          case (MsgNotification x)
          then have "c' = handleNotification ?c x"
            using it rd None False Inr by (auto simp: readLoop_iteration_def)
          then show ?thesis using r' by (simp add: pending_ready_handleNotification)
        qed
      qed
    qed
  qed
qed

lemma pending_ready_Call:
  assumes r: "pending_ready c" and st: "(c', k') \<in> set (Call_step T ctx out c k)"
  shows "pending_ready c'"
proof (cases k)
  case (Registering m params)
  let ?i = "NewIntRequestID (nextID c + 1)"
  let ?c2 = "c\<lparr>nextID := nextID c + 1, chans := (chans c)(chan_count c := []),
               chan_count := chan_count c + 1,
               pending := AList.update (Key ?i) (chan_count c) (pending c)\<rparr>"
  have r2: "pending_ready ?c2"
    using pending_ready_register [OF r, of "Key ?i"] by (simp add: pending_ready_def)
  have "c' = c \<or> c' = ?c2 \<or> c' = ?c2\<lparr>pending := AList.delete (Key ?i) (pending ?c2)\<rparr>"
    using st Registering
    by (auto simp: Call_step_def Call_register_def ensureOpen_def nextRequestID_def make_chan_def
        deletePending_def split: option.splits sum.splits)
  then show ?thesis
    using r r2 pending_ready_delete [of ?c2 "Key ?i"] by auto
next
  case (Sending i ch p)
  then obtain c1 e where s: "send T c p = Returns (c1, e)"
    and c': "c' = c1 \<or> c' = deletePending c1 i"
    using st
    by (auto simp: Call_step_def Call_send_def split: blocking.splits option.splits)
  have "pending_ready c1"
    using pending_ready_send [OF r s] .
  then show ?thesis
    using c' pending_ready_delete [of c1 "Key i"] by (auto simp: deletePending_def)
next
  case (Waiting i ch)
  have "c' = deletePending c i \<or> (\<exists>resp rest. chans c ch = resp # rest \<and> c' = c\<lparr>chans := (chans c)(ch := rest)\<rparr>)"
  proof (cases "chans c ch")
    case Nil
    then show ?thesis
      using st Waiting
      by (auto simp: Call_step_def Call_select_def split: if_splits option.splits)
  next
    case (Cons resp rest)
    then show ?thesis
      using st Waiting
      by (auto simp: Call_step_def Call_select_def split: if_splits option.splits)
  qed
  then show ?thesis
  proof
    assume "c' = deletePending c i"
    then show ?thesis using pending_ready_delete [OF r, of "Key i"] by (simp add: deletePending_def)
  next
    assume "\<exists>resp rest. chans c ch = resp # rest \<and> c' = c\<lparr>chans := (chans c)(ch := rest)\<rparr>"
    then obtain resp rest where ch: "chans c ch = resp # rest" and c': "c' = c\<lparr>chans := (chans c)(ch := rest)\<rparr>"
      by blast
    have "ch \<notin> snd ` set (pending c)"
      using r ch by (auto simp: pending_ready_def)
    then show ?thesis
      using r c' by (auto simp: pending_ready_def)
  qed
next
  case (Returned x)
  then show ?thesis using st by (simp add: Call_step_def)
qed

lemma pending_ready_NewClient: "pending_ready (NewClient tr h)"
  by (simp add: pending_ready_def NewClient_def)

lemma pending_ready_step:
  assumes "pending_ready (fst s)" and "step T ctx out s s'"
  shows "pending_ready (fst s')"
  using assms(2,1)
proof (cases rule: step.cases)
  case (caller c' k' c k l)
  then show ?thesis using assms(1) pending_ready_Call by fastforce
next
  case (reader c c' lp k)
  then show ?thesis using assms(1) pending_ready_readLoop by fastforce
qed

text \<open>
  C2. On a client that has not terminated and whose pending table is in order
  (distinct channels, all empty), finish with an error delivers that error once to the
  channel of every pending call, closes every registered subscription, empties both
  tables and marks the client done; Close and a read error in the read loop both run
  it. A Call that waits for its response then returns that error, whichever case of
  its select is taken, and returns once; a Call made afterwards returns it at once.
  After termination, finish with any error returns the client unchanged, and Close only
  closes the transport. (A Call that is registered but has not yet written its request
  goes on to write: it returns what the write to the closed transport returns.)
\<close>

theorem termination_once:
  assumes "pending_ready c" and "\<not> doneOnce c"
  shows "finish c e = Returns (terminated c e)
       \<and> Client_Close T c =
           Returns ((terminated c ErrClientClosed)\<lparr>transport := fst (Close T (transport c))\<rparr>,
                    snd (Close T (transport c)))
       \<and> (\<forall>t' line. ReadLine T (transport c) = Returns (t', line, Some e)
            \<longrightarrow> readLoop_iteration T c = Returns (terminated (c\<lparr>transport := t'\<rparr>) e, Exit))
       \<and> (\<forall>ch \<in> snd ` set (pending c).
            chans (terminated c e) ch = [\<lparr>res_result = None, res_err = Some e\<rparr>])
       \<and> (\<forall>ch \<in> snd ` set (pending c).
            map snd (Call_step T ctx out (terminated c e) (Waiting i ch))
              = Returned (Inl e) # (case ctx of Some x \<Rightarrow> [Returned (Inl x)] | None \<Rightarrow> [])
                  @ [Returned (Inl e)])
       \<and> Call_step T ctx out c' (Returned r) = []
       \<and> Call_step T ctx out (terminated c e) (Registering method params)
            = [(terminated c e, Returned (Inl e))]
       \<and> errOrClosed (terminated c e) = e
       \<and> (\<forall>a \<in> snd ` set (subs c). subscriptions (terminated c e) a = sub_close (subscriptions c a))
       \<and> pending (terminated c e) = [] \<and> subs (terminated c e) = []
       \<and> (\<forall>e'. finish (terminated c e) e' = Returns (terminated c e))
       \<and> (\<forall>t. Client_Close T ((terminated c e)\<lparr>transport := t\<rparr>) =
                 Returns ((terminated c e)\<lparr>transport := fst (Close T t)\<rparr>, snd (Close T t)))"
proof -
  have f: "\<And>x. finish c x = Returns (terminated c x)"
    using assms by (rule finish_first)
  have ready': "\<And>t'. pending_ready (c\<lparr>transport := t'\<rparr>)"
    using assms(1) by (simp add: pending_ready_def)
  have f': "\<And>t' x. finish (c\<lparr>transport := t'\<rparr>) x = Returns (terminated (c\<lparr>transport := t'\<rparr>) x)"
    using ready' assms(2) by (intro finish_first) simp_all
  have once: "\<And>t. doneOnce ((terminated c e)\<lparr>transport := t\<rparr>)" "doneOnce (terminated c e)"
    by (simp_all add: terminated_def)
  have closed: "cdone (terminated c e)" "err (terminated c e) = Some e"
    by (simp_all add: terminated_def)
  have sel: "\<forall>ch \<in> snd ` set (pending c).
            map snd (Call_step T ctx out (terminated c e) (Waiting i ch))
              = Returned (Inl e) # (case ctx of Some x \<Rightarrow> [Returned (Inl x)] | None \<Rightarrow> [])
                  @ [Returned (Inl e)]"
  proof
    fix ch
    assume "ch \<in> snd ` set (pending c)"
    then have "chans (terminated c e) ch = [\<lparr>res_result = None, res_err = Some e\<rparr>]"
      by (simp add: terminated_def)
    then show "map snd (Call_step T ctx out (terminated c e) (Waiting i ch))
              = Returned (Inl e) # (case ctx of Some x \<Rightarrow> [Returned (Inl x)] | None \<Rightarrow> [])
                  @ [Returned (Inl e)]"
      using closed
      by (simp add: Call_step_def Call_select_def errOrClosed_def split: option.splits)
  qed
  have late: "Call_step T ctx out (terminated c e) (Registering method params)
            = [(terminated c e, Returned (Inl e))]"
    using closed by (simp add: Call_step_def Call_register_def ensureOpen_def errOrClosed_def)
  have rest: "finish c e = Returns (terminated c e)
       \<and> Client_Close T c =
           Returns ((terminated c ErrClientClosed)\<lparr>transport := fst (Close T (transport c))\<rparr>,
                    snd (Close T (transport c)))
       \<and> (\<forall>t' line. ReadLine T (transport c) = Returns (t', line, Some e)
            \<longrightarrow> readLoop_iteration T c = Returns (terminated (c\<lparr>transport := t'\<rparr>) e, Exit))
       \<and> (\<forall>ch \<in> snd ` set (pending c).
            chans (terminated c e) ch = [\<lparr>res_result = None, res_err = Some e\<rparr>])
       \<and> (\<forall>a \<in> snd ` set (subs c). subscriptions (terminated c e) a = sub_close (subscriptions c a))
       \<and> pending (terminated c e) = [] \<and> subs (terminated c e) = []
       \<and> (\<forall>e'. finish (terminated c e) e' = Returns (terminated c e))
       \<and> (\<forall>t. Client_Close T ((terminated c e)\<lparr>transport := t\<rparr>) =
                 Returns ((terminated c e)\<lparr>transport := fst (Close T t)\<rparr>, snd (Close T t)))"
    using f f' once
    by (auto simp: Client_Close_def readLoop_iteration_def finish_again terminated_def
        split: prod.splits)
  have ret: "Call_step T ctx out c' (Returned r) = []"
    by (simp add: Call_step_def)
  have eoc: "errOrClosed (terminated c e) = e"
    using closed by (simp add: errOrClosed_def)
  from rest sel late ret eoc show ?thesis
    by blast
qed

definition busy_client :: "ReplayTransport Client" where
  "busy_client =
     (NewClient (NewReplayTransport []) None)
       \<lparr>nextID := 1, pending := [(''i:1'', 0)], chan_count := 1, subs := [(0, 0)], nextSub := 1,
         sub_count := 1\<rparr>"

theorem termination_once_witness:
  "finish busy_client EOF = Returns (terminated busy_client EOF)
   \<and> chans (terminated busy_client EOF) 0 = [\<lparr>res_result = None, res_err = Some EOF\<rparr>]
   \<and> map snd (Call_step (replay Some) None (None :: (json \<Rightarrow> error + json) option)
          (terminated busy_client EOF) (Waiting (NewIntRequestID 1) 0))
       = [Returned (Inl EOF), Returned (Inl EOF)]
   \<and> sub_done (subscriptions (terminated busy_client EOF) 0)
   \<and> pending (terminated busy_client EOF) = [] \<and> subs (terminated busy_client EOF) = []
   \<and> finish (terminated busy_client EOF) ErrClientClosed = Returns (terminated busy_client EOF)"
proof -
  have r: "pending_ready busy_client" "\<not> doneOnce busy_client"
    by (simp_all add: pending_ready_def busy_client_def NewClient_def)
  have s: "sub_done (sub_close (subscriptions busy_client 0))"
    "snd ` set (pending busy_client) = {0}" "snd ` set (subs busy_client) = {0}"
    by (simp_all add: busy_client_def NewClient_def sub_close_def)
  show ?thesis
    using s termination_once [OF r, of EOF "replay Some" None
        "None :: (json \<Rightarrow> error + json) option" "NewIntRequestID 1"]
    by simp
qed

definition unsent_client :: "ReplayTransport Client" where
  "unsent_client =
     (NewClient (NewReplayTransport
        [\<lparr>Direction = ''write'', Line = ''{\"id\":1,\"method\":\"ping\",\"params\":{}}''\<rparr>]) None)
       \<lparr>nextID := 1, pending := [(''i:1'', 0)], chan_count := 1\<rparr>"

definition ping_request :: payload where
  "ping_request =
     PRequest \<lparr>req_ID = NewIntRequestID 1, req_Method = ''ping'', req_Params = Some (JObj [])\<rparr>"

theorem termination_unsent_counterexample:
  "Call_step (replay Some) None (None :: (json \<Rightarrow> error + json) option)
     (NewClient (NewReplayTransport
        [\<lparr>Direction = ''write'', Line = ''{\"id\":1,\"method\":\"ping\",\"params\":{}}''\<rparr>]) None)
     (Registering ''ping'' (Marshals (JObj [])))
     = [(unsent_client, Sending (NewIntRequestID 1) 0 ping_request)]
   \<and> Client_Close (replay Some) unsent_client
     = Returns ((terminated unsent_client ErrClientClosed)
                  \<lparr>transport := (transport unsent_client)\<lparr>closed := True\<rparr>\<rparr>, None)
   \<and> chans (terminated unsent_client ErrClientClosed) 0
     = [\<lparr>res_result = None, res_err = Some ErrClientClosed\<rparr>]
   \<and> map snd (Call_step (replay Some) None (None :: (json \<Rightarrow> error + json) option)
        ((terminated unsent_client ErrClientClosed)
           \<lparr>transport := (transport unsent_client)\<lparr>closed := True\<rparr>\<rparr>)
        (Sending (NewIntRequestID 1) 0 ping_request))
     = [Returned (Inl ErrReplayClosed)]
   \<and> ErrReplayClosed \<noteq> ErrClientClosed"
proof -
  have k: "Key (NewIntRequestID 1) = ''i:1''"
    by (simp add: wire_eval char_of_eq_iff)
  have 1: "Call_step (replay Some) None (None :: (json \<Rightarrow> error + json) option)
     (NewClient (NewReplayTransport
        [\<lparr>Direction = ''write'', Line = ''{\"id\":1,\"method\":\"ping\",\"params\":{}}''\<rparr>]) None)
     (Registering ''ping'' (Marshals (JObj [])))
     = [(unsent_client, Sending (NewIntRequestID 1) 0 ping_request)]"
    using k
    by (simp add: Call_step_def Call_register_def ensureOpen_def nextRequestID_def make_chan_def
        BuildClientRequest_def Marshal_def NewClient_def unsent_client_def ping_request_def
        fun_upd_def cong: if_cong)
  have 2: "Client_Close (replay Some) unsent_client
     = Returns ((terminated unsent_client ErrClientClosed)
                  \<lparr>transport := (transport unsent_client)\<lparr>closed := True\<rparr>\<rparr>, None)"
    by (simp add: Client_Close_def finish_def chan_send_def close_each_def terminated_def
        unsent_client_def NewClient_def replay_def ReplayTransport_Close_def NewReplayTransport_def
        fun_upd_def cong: if_cong)
  have 3: "chans (terminated unsent_client ErrClientClosed) 0
     = [\<lparr>res_result = None, res_err = Some ErrClientClosed\<rparr>]"
    by (simp add: terminated_def unsent_client_def)
  have 4: "map snd (Call_step (replay Some) None (None :: (json \<Rightarrow> error + json) option)
        ((terminated unsent_client ErrClientClosed)
           \<lparr>transport := (transport unsent_client)\<lparr>closed := True\<rparr>\<rparr>)
        (Sending (NewIntRequestID 1) 0 ping_request))
     = [Returned (Inl ErrReplayClosed)]"
    by (simp add: Call_step_def Call_send_def send_def marshal_payload_def ping_request_def
        replay_def ReplayTransport_WriteLine_def)
  from 1 2 3 4 show ?thesis by simp
qed

section \<open>A call over the replay transport\<close>




















text \<open>The entries of a replay transport from the cursor on.\<close>

definition remaining :: "ReplayTransport \<Rightarrow> TranscriptEntry list" where
  "remaining t = drop (index t) (transcript t)"

text \<open>
  A caller that makes the calls one after the other: the moves of the call under way
  and of the read loop, and the start of the next call once one has returned. A state
  holds the client, the call under way and the read loop's flag, the results of the
  calls that have returned, and the calls still to make. \<open>outcome\<close> is the list of
  results so far, \<open>expected\<close> the result a call should have, \<open>request_of\<close> its arguments.
\<close>

definition expected :: "string \<times> json \<times> json \<times> 'a \<Rightarrow> error + 'a option" where
  "expected call = Inr (Some (snd (snd (snd call))))"














lemma remaining_length:
  "index t \<le> length (transcript t) \<Longrightarrow> length (remaining t) = length (transcript t) - index t"
  by (simp add: remaining_def)





































end
